theory Spec2Isabelle
  imports Complex_Main
begin

section \<open>JavaScript values that reach \<open>lib/money.js\<close>\<close>

text \<open>
  A JavaScript number is a finite value, one of the two infinities, or NaN. A finite number
  is represented by the decimal value of its string form: this is what \<open>new Big(n)\<close> reads
  (big.js converts a number through \<open>String(n)\<close>), and it is an integer, zero or negative
  exactly when the number is. Every double has such a value, so a statement about all
  \<open>Fin q\<close> covers all finite doubles.
\<close>

datatype jsnum = Fin rat | PosInf | NegInf | NaN

text \<open>The primitive values an argument can be: \<open>undefined\<close>, a boolean, a number, a string
  (\<open>null\<close> and objects are left out).\<close>

datatype jsval = Undefined | Bool bool | Num jsnum | Str string

text \<open>Truthiness, as \<open>precision && ...\<close> tests it: \<open>0\<close>, \<open>NaN\<close>, \<open>''\<close>, \<open>false\<close> and
  \<open>undefined\<close> are falsy.\<close>

fun truthy :: "jsval \<Rightarrow> bool" where
  "truthy Undefined = False"
| "truthy (Bool b) = b"
| "truthy (Num (Fin q)) = (q \<noteq> 0)"
| "truthy (Num NaN) = False"
| "truthy (Num PosInf) = True"
| "truthy (Num NegInf) = True"
| "truthy (Str s) = (s \<noteq> [])"

text \<open>\<open>Number.isInteger\<close>: true for a finite number with no fractional part, false for every
  other value (no coercion).\<close>

fun isInteger :: "jsval \<Rightarrow> bool" where
  "isInteger (Num (Fin q)) = (of_int \<lfloor>q\<rfloor> = q)"
| "isInteger _ = False"

section \<open>Errors\<close>

text \<open>
  The source throws \<open>Error\<close> and \<open>TypeError\<close> objects told apart by their messages; the
  constructors below name them as the specification does. \<open>InvalidAmount\<close> is the error
  big.js throws when it is given something that is not a finite decimal, \<open>InvalidPrecision\<close>
  the one its \<open>round\<close> throws for a number of decimal places it does not accept.
  \<open>InvalidAllocation\<close> is named by the specification only: no statement of
  \<open>lib/money.js\<close> raises it. \<open>ServiceError\<close> is whatever the forex service fails with.
\<close>

datatype error =
    InvalidCurrency string
  | InvalidAmount
  | InvalidPrecision
  | CurrencyMismatch
  | TypeError string
  | InvalidAllocation
  | NoRate string string
  | ServiceError string

section \<open>big.js: exact decimals\<close>

text \<open>
  A \<open>Big\<close> is an exact decimal of arbitrary precision; \<open>plus\<close>, \<open>minus\<close>, \<open>times\<close> and \<open>cmp\<close>
  are exact. Its value is a rational number, and the operations the source uses (no
  division) are the operations of \<open>rat\<close>.
\<close>

type_synonym big = rat

text \<open>\<open>new Big(n)\<close> for a number: NaN and the infinities are rejected.\<close>

fun Big_of_num :: "jsnum \<Rightarrow> error + big" where
  "Big_of_num (Fin q) = Inr q"
| "Big_of_num _ = Inl InvalidAmount"

text \<open>\<open>x.cmp(y)\<close>: -1, 0 or 1.\<close>

definition cmp :: "big \<Rightarrow> big \<Rightarrow> int" where
  "cmp x y = (if x < y then -1 else if x = y then 0 else 1)"

text \<open>The largest number of decimal places big.js accepts (\<open>MAX_DP\<close>).\<close>

definition MAX_DP :: nat where
  "MAX_DP = 1000000"

text \<open>Rounding to the nearest integer, a tie going to the even neighbour.\<close>

definition half_even :: "rat \<Rightarrow> int" where
  "half_even y =
     (let f = \<lfloor>y\<rfloor>; d = y - of_int f
      in if d < 1 / 2 then f
         else if 1 / 2 < d then f + 1
         else if even f then f else f + 1)"

text \<open>The rounding modes of big.js: 0 rounds towards zero, 1 to the nearest with a tie away
  from zero, 2 to the nearest with a tie to even, 3 away from zero; any other mode throws.\<close>

definition rnd :: "nat \<Rightarrow> rat \<Rightarrow> int option" where
  "rnd rm y =
     (if rm = 0 then Some (if 0 \<le> y then \<lfloor>y\<rfloor> else \<lceil>y\<rceil>)
      else if rm = 1 then Some (if 0 \<le> y then \<lfloor>y + 1 / 2\<rfloor> else \<lceil>y - 1 / 2\<rceil>)
      else if rm = 2 then Some (half_even y)
      else if rm = 3 then Some (if 0 \<le> y then \<lceil>y\<rceil> else \<lfloor>y\<rfloor>)
      else None)"

text \<open>\<open>x.round(dp, rm)\<close>: \<open>dp\<close> must be an integer from 0 to \<open>MAX_DP\<close>, tested without
  coercion (an omitted \<open>dp\<close> is 0); the value is rounded to \<open>dp\<close> decimal places. The
  error for a \<open>dp\<close> or \<open>rm\<close> that is not accepted is a plain \<open>Error\<close>.\<close>

definition Big_round :: "big \<Rightarrow> jsval \<Rightarrow> nat \<Rightarrow> error + big" where
  "Big_round x dp rm =
     (let places =
        (case dp of
           Undefined \<Rightarrow> Some 0
         | Num (Fin q) \<Rightarrow>
             if of_int \<lfloor>q\<rfloor> = q \<and> 0 \<le> q \<and> q \<le> of_nat MAX_DP then Some (nat \<lfloor>q\<rfloor>) else None
         | _ \<Rightarrow> None)
      in case places of
           None \<Rightarrow> Inl InvalidPrecision
         | Some p \<Rightarrow>
             (case rnd rm (x * 10 ^ p) of
                None \<Rightarrow> Inl InvalidPrecision
              | Some k \<Rightarrow> Inr (of_int k / 10 ^ p)))"

section \<open>The collaborators of \<open>lib/money.js\<close>\<close>

text \<open>The settled state of a promise.\<close>

datatype 'a promise = Fulfilled 'a | Rejected error | Pending

text \<open>
  What the module takes from outside, as parameters:
  \<^item> \<open>l10n_digits c\<close> is \<open>l10n(c).resolvedOptions().maximumFractionDigits\<close> (\<open>./l10n\<close>);
  \<^item> \<open>normalise\<close> is \<open>./number\<close>, which rewrites a textual amount or throws;
  \<^item> \<open>Big_parse\<close> is big.js reading a decimal string (\<open>None\<close> when it throws);
  \<^item> \<open>forexService a b\<close> is \<open>Money.forexService(a, b)\<close>: it throws, or returns a promise;
  \<^item> \<open>fadd\<close> and \<open>fdiv\<close> are \<open>+\<close> and \<open>/\<close> on numbers (IEEE-754 double arithmetic).
\<close>

record env =
  l10n_digits :: "string \<Rightarrow> nat"
  normalise :: "string \<Rightarrow> error + string"
  Big_parse :: "string \<Rightarrow> big option"
  forexService :: "string \<Rightarrow> string \<Rightarrow> error + jsval promise"
  fadd :: "jsnum \<Rightarrow> jsnum \<Rightarrow> jsnum"
  fdiv :: "jsnum \<Rightarrow> jsnum \<Rightarrow> jsnum"

text \<open>\<open>new Big(v)\<close> for a primitive value.\<close>

fun Big_new :: "env \<Rightarrow> jsval \<Rightarrow> error + big" where
  "Big_new E (Num n) = Big_of_num n"
| "Big_new E (Str s) = (case Big_parse E s of None \<Rightarrow> Inl InvalidAmount | Some b \<Rightarrow> Inr b)"
| "Big_new E _ = Inl InvalidAmount"

section \<open>Money\<close>

record money =
  amount :: big
  currency :: string

text \<open>The pattern \<open>/^[A-Z]{3}$/\<close>.\<close>

definition iso4217 :: "string \<Rightarrow> bool" where
  "iso4217 s = (length s = 3 \<and> list_all (\<lambda>c. 65 \<le> (of_char c :: nat) \<and> (of_char c :: nat) \<le> 90) s)"

definition roundingMode :: nat where
  "roundingMode = 2"

definition zero :: big where
  "zero = 0"

text \<open>The amount handed to the constructor: a primitive value, or a \<open>Big\<close> (as the methods
  pass).\<close>

datatype amount_in = Val jsval | BigV big

text \<open>The three ways of calling the constructor: one string \<open>'1.2 EUR'\<close>, one object with
  the fields \<open>amount\<close> and \<open>currency\<close>, or an amount and a currency.\<close>

datatype ctor_args = OneString string | OneObject amount_in string | Two amount_in string

text \<open>\<open>amount.lastIndexOf(' ')\<close>, then \<open>slice(i + 1)\<close> and \<open>slice(0, i)\<close>. With no space
  \<open>i\<close> is -1: the currency is the whole string and the amount loses its last character.\<close>

definition after_last_space :: "string \<Rightarrow> string" where
  "after_last_space s = rev (takeWhile (\<lambda>c. c \<noteq> CHR '' '') (rev s))"

definition before_last_space :: "string \<Rightarrow> string" where
  "before_last_space s =
     (if CHR '' '' \<in> set s then rev (tl (dropWhile (\<lambda>c. c \<noteq> CHR '' '') (rev s)))
      else butlast s)"

text \<open>Lines 27 to 30 of the constructor: a string amount is normalised, and the amount
  becomes a \<open>Big\<close>.\<close>

definition read_amount :: "env \<Rightarrow> amount_in \<Rightarrow> error + big" where
  "read_amount E a =
     (case a of
        Val (Str s) \<Rightarrow> (case normalise E s of Inl e \<Rightarrow> Inl e | Inr s' \<Rightarrow> Big_new E (Str s'))
      | Val v \<Rightarrow> Big_new E v
      | BigV b \<Rightarrow> Inr b)"

text \<open>The validation part of the constructor (lines 26 to 38): the amount is read, then the
  currency is tested.\<close>

definition validate :: "env \<Rightarrow> amount_in \<Rightarrow> string \<Rightarrow> error + money" where
  "validate E a c =
     (case read_amount E a of
        Inl e \<Rightarrow> Inl e
      | Inr b \<Rightarrow>
          if \<not> iso4217 c then Inl (InvalidCurrency c)
          else Inr \<lparr>amount = b, currency = c\<rparr>)"

fun Money :: "env \<Rightarrow> ctor_args \<Rightarrow> error + money" where
  "Money E (OneString s) = validate E (Val (Str (before_last_space s))) (after_last_space s)"
| "Money E (OneObject a c) = validate E a c"
| "Money E (Two a c) = validate E a c"

definition Money_precision :: "env \<Rightarrow> money \<Rightarrow> nat" where
  "Money_precision E m = l10n_digits E (currency m)"

definition Money_plus :: "env \<Rightarrow> money \<Rightarrow> money \<Rightarrow> error + money" where
  "Money_plus E this that =
     (if currency this \<noteq> currency that then Inl CurrencyMismatch
      else Money E (Two (BigV (amount this + amount that)) (currency this)))"

definition Money_minus :: "env \<Rightarrow> money \<Rightarrow> money \<Rightarrow> error + money" where
  "Money_minus E this that =
     (if currency this \<noteq> currency that then Inl CurrencyMismatch
      else Money E (Two (BigV (amount this - amount that)) (currency this)))"

definition Money_times :: "env \<Rightarrow> money \<Rightarrow> jsval \<Rightarrow> error + money" where
  "Money_times E this that =
     (case that of
        Num n \<Rightarrow>
          (case Big_of_num n of
             Inl e \<Rightarrow> Inl e
           | Inr b \<Rightarrow> Money E (Two (BigV (amount this * b)) (currency this)))
      | _ \<Rightarrow> Inl (TypeError ''Money multiplication needs a Number''))"

definition Money_round :: "env \<Rightarrow> money \<Rightarrow> jsval \<Rightarrow> error + money" where
  "Money_round E this precision =
     (if truthy precision \<and> \<not> isInteger precision
      then Inl (TypeError ''Precision must be an integer'')
      else
        (let precision' =
           (if precision = Undefined then Num (Fin (of_nat (Money_precision E this)))
            else precision)
         in case Big_round (amount this) precision' roundingMode of
              Inl e \<Rightarrow> Inl e
            | Inr b \<Rightarrow> Money E (Two (BigV b) (currency this))))"

text \<open>\<open>compare\<close>, and the predicates built on it. \<open>eq\<close> and \<open>ne\<close> test the currencies
  first and call \<open>compare\<close> only when \<open>&&\<close> and \<open>||\<close> evaluate their right operand.\<close>

definition Money_compare :: "money \<Rightarrow> money \<Rightarrow> error + int" where
  "Money_compare this that =
     (if currency this \<noteq> currency that then Inl CurrencyMismatch
      else Inr (cmp (amount this) (amount that)))"

definition Money_eq :: "money \<Rightarrow> money \<Rightarrow> error + bool" where
  "Money_eq this that =
     (if currency this = currency that
      then (case Money_compare this that of Inl e \<Rightarrow> Inl e | Inr c \<Rightarrow> Inr (c = 0))
      else Inr False)"

definition Money_ne :: "money \<Rightarrow> money \<Rightarrow> error + bool" where
  "Money_ne this that =
     (if currency this \<noteq> currency that then Inr True
      else (case Money_compare this that of Inl e \<Rightarrow> Inl e | Inr c \<Rightarrow> Inr (c \<noteq> 0)))"

definition isZero :: "money \<Rightarrow> bool" where
  "isZero this = (cmp (amount this) zero = 0)"

definition isNotZero :: "money \<Rightarrow> bool" where
  "isNotZero this = (cmp (amount this) zero \<noteq> 0)"

subsection \<open>Allocation\<close>

text \<open>The argument \<open>ratios\<close>: an array of numbers, or something that is not an array.\<close>

datatype ratios_in = NotArray jsval | Array "jsnum list"

text \<open>\<open>ratios.reduce((a,b) => a + b, 0)\<close>.\<close>

definition total_of :: "env \<Rightarrow> jsnum list \<Rightarrow> jsnum" where
  "total_of E ratios = foldl (fadd E) (Fin 0) ratios"

text \<open>The body of the callback of \<open>ratios.map\<close>: the share of one ratio.\<close>

definition share_of :: "env \<Rightarrow> money \<Rightarrow> jsnum \<Rightarrow> jsval \<Rightarrow> jsnum \<Rightarrow> error + money" where
  "share_of E amnt totl precision ratio =
     (case Money_times E amnt (Num (fdiv E ratio totl)) of
        Inl e \<Rightarrow> Inl e
      | Inr t \<Rightarrow> Money_round E t precision)"

text \<open>\<open>ratios.map\<close>, with the variable \<open>remainder\<close> that the callback updates threaded
  through; the first exception ends the loop.\<close>

fun shares_of ::
  "env \<Rightarrow> money \<Rightarrow> jsnum \<Rightarrow> jsval \<Rightarrow> jsnum list \<Rightarrow> money \<Rightarrow> error + (money list \<times> money)" where
  "shares_of E amnt totl precision [] remainder = Inr ([], remainder)"
| "shares_of E amnt totl precision (ratio # ratios) remainder =
     (case share_of E amnt totl precision ratio of
        Inl e \<Rightarrow> Inl e
      | Inr share \<Rightarrow>
          (case Money_minus E remainder share of
             Inl e \<Rightarrow> Inl e
           | Inr remainder' \<Rightarrow>
               (case shares_of E amnt totl precision ratios remainder' of
                  Inl e \<Rightarrow> Inl e
                | Inr (shares, r) \<Rightarrow> Inr (share # shares, r))))"

text \<open>Lines 97 to 99: a remainder that is not zero goes to \<open>shares[0]\<close>. The array has as
  many elements as \<open>ratios\<close>, which is not empty here; on an empty array \<open>shares[0]\<close> would
  be \<open>undefined\<close> and the call of \<open>plus\<close> on it a TypeError.\<close>

definition absorb :: "env \<Rightarrow> jsval \<Rightarrow> money list \<Rightarrow> money \<Rightarrow> error + money list" where
  "absorb E precision shares remainder =
     (if isNotZero remainder
      then (case shares of
              [] \<Rightarrow> Inl (TypeError ''shares[0] is undefined'')
            | s # ss \<Rightarrow>
                (case Money_plus E s remainder of
                   Inl e \<Rightarrow> Inl e
                 | Inr s' \<Rightarrow>
                     (case Money_round E s' precision of
                        Inl e \<Rightarrow> Inl e
                      | Inr s'' \<Rightarrow> Inr (s'' # ss))))
      else Inr shares)"

definition Money_allocate :: "env \<Rightarrow> money \<Rightarrow> ratios_in \<Rightarrow> jsval \<Rightarrow> error + money list" where
  "Money_allocate E this ratios_arg precision =
     (case ratios_arg of
        NotArray v \<Rightarrow> Inl (TypeError ''Money allocation needs an Array'')
      | Array ratios \<Rightarrow>
          if length ratios < 1 then Inl (TypeError ''Money allocation needs a non-empty Array'')
          else
            (let totl = total_of E ratios
             in case Money_round E this precision of
                  Inl e \<Rightarrow> Inl e
                | Inr amnt \<Rightarrow>
                    (case shares_of E amnt totl precision ratios amnt of
                       Inl e \<Rightarrow> Inl e
                     | Inr (shares, remainder) \<Rightarrow> absorb E precision shares remainder)))"

subsection \<open>Conversion\<close>

text \<open>The callback given to \<open>then\<close> (lines 187 to 196), as the state of the promise it
  returns: \<open>self.amount.times(rate)\<close> makes a \<open>Big\<close> of the rate, and what it or the
  constructor throws is caught and becomes a rejection.\<close>

definition on_rate :: "env \<Rightarrow> money \<Rightarrow> string \<Rightarrow> jsval \<Rightarrow> money promise" where
  "on_rate E self target rate =
     (if rate = Undefined then Rejected (NoRate (currency self) target)
      else (case Big_new E rate of
              Inl e \<Rightarrow> Rejected e
            | Inr r \<Rightarrow>
                (case Money E (Two (BigV (amount self * r)) target) of
                   Inl e \<Rightarrow> Rejected e
                 | Inr m \<Rightarrow> Fulfilled m)))"

text \<open>\<open>to\<close> returns a promise or throws (\<open>Inl\<close>); the second component lists the calls made
  to the forex service, in order.\<close>

definition Money_to ::
  "env \<Rightarrow> money \<Rightarrow> string \<Rightarrow> (error + money promise) \<times> (string \<times> string) list" where
  "Money_to E this target =
     (if currency this = target then (Inr (Fulfilled this), [])
      else if \<not> iso4217 target then (Inr (Rejected (InvalidCurrency target)), [])
      else
        (case forexService E (currency this) target of
           Inl e \<Rightarrow> Inl e
         | Inr Pending \<Rightarrow> Inr Pending
         | Inr (Rejected e) \<Rightarrow> Inr (Rejected e)
         | Inr (Fulfilled rate) \<Rightarrow> Inr (on_rate E this target rate),
         [(currency this, target)]))"

section \<open>Notions used to state the properties\<close>

text \<open>The number of decimal places \<open>round(precision)\<close> rounds to: the currency's own when
  \<open>precision\<close> is omitted.\<close>

fun places_of :: "env \<Rightarrow> money \<Rightarrow> jsval \<Rightarrow> nat" where
  "places_of E m Undefined = Money_precision E m"
| "places_of E m (Num (Fin q)) = nat \<lfloor>q\<rfloor>"
| "places_of E m _ = 0"

text \<open>A valid precision: a natural number that big.js accepts, or none at all when the
  currency's own number of places is such a number.\<close>

fun valid_precision :: "env \<Rightarrow> money \<Rightarrow> jsval \<Rightarrow> bool" where
  "valid_precision E m Undefined = (Money_precision E m \<le> MAX_DP)"
| "valid_precision E m (Num (Fin q)) = (of_int \<lfloor>q\<rfloor> = q \<and> 0 \<le> q \<and> q \<le> of_nat MAX_DP)"
| "valid_precision E m _ = False"

text \<open>Half-even rounding of a decimal to \<open>p\<close> places.\<close>

definition round_to :: "nat \<Rightarrow> big \<Rightarrow> big" where
  "round_to p x = of_int (half_even (x * 10 ^ p)) / 10 ^ p"

fun is_finite :: "jsnum \<Rightarrow> bool" where
  "is_finite (Fin q) = True"
| "is_finite _ = False"

text \<open>The value of a finite number.\<close>

fun fin_value :: "jsnum \<Rightarrow> rat" where
  "fin_value (Fin q) = q"
| "fin_value _ = 0"

fun finite_nonneg :: "jsnum \<Rightarrow> bool" where
  "finite_nonneg (Fin q) = (0 \<le> q)"
| "finite_nonneg _ = False"

fun nonneg :: "jsnum \<Rightarrow> bool" where
  "nonneg (Fin q) = (0 \<le> q)"
| "nonneg PosInf = True"
| "nonneg _ = False"

fun positive :: "jsnum \<Rightarrow> bool" where
  "positive (Fin q) = (0 < q)"
| "positive PosInf = True"
| "positive _ = False"

text \<open>\<open>a <= b\<close> on numbers.\<close>

fun le_num :: "jsnum \<Rightarrow> jsnum \<Rightarrow> bool" where
  "le_num (Fin a) (Fin b) = (a \<le> b)"
| "le_num (Fin a) PosInf = True"
| "le_num NegInf (Fin b) = True"
| "le_num NegInf NegInf = True"
| "le_num NegInf PosInf = True"
| "le_num PosInf PosInf = True"
| "le_num _ _ = False"

text \<open>
  What the allocation of non-negative ratios needs of double arithmetic, and IEEE-754
  arithmetic provides: a sum of two non-negative numbers is a non-negative number (possibly
  infinite) not below either of them, since rounding is monotone; and a non-negative number
  divided by a positive number not below it, or by infinity, is finite.
\<close>

definition ieee_nonneg :: "env \<Rightarrow> bool" where
  "ieee_nonneg E =
     ((\<forall>a b. nonneg a \<and> nonneg b \<longrightarrow>
          nonneg (fadd E a b) \<and> le_num a (fadd E a b) \<and> le_num b (fadd E a b)) \<and>
      (\<forall>q t. 0 \<le> q \<and> q \<le> t \<and> 0 < t \<longrightarrow> is_finite (fdiv E (Fin q) (Fin t))) \<and>
      (\<forall>q. 0 \<le> q \<longrightarrow> is_finite (fdiv E (Fin q) PosInf)))"

text \<open>A number other than zero (and other than NaN), and an infinity.\<close>

fun nonzero :: "jsnum \<Rightarrow> bool" where
  "nonzero (Fin q) = (q \<noteq> 0)"
| "nonzero NaN = False"
| "nonzero _ = True"

fun is_infinite :: "jsnum \<Rightarrow> bool" where
  "is_infinite PosInf = True"
| "is_infinite NegInf = True"
| "is_infinite _ = False"

text \<open>A finite number divided by a number other than zero is not NaN: it is finite, or an
  infinity when the division overflows.\<close>

definition ieee_div_nan :: "env \<Rightarrow> bool" where
  "ieee_div_nan E = (\<forall>x t. is_finite x \<and> nonzero t \<longrightarrow> fdiv E x t \<noteq> NaN)"

text \<open>Division by zero never gives a finite number (it gives NaN or an infinity).\<close>

definition ieee_div_zero :: "env \<Rightarrow> bool" where
  "ieee_div_zero E = (\<forall>x. \<not> is_finite (fdiv E x (Fin 0)))"

text \<open>A decimal with at most \<open>p\<close> decimal places.\<close>

definition at_places :: "nat \<Rightarrow> big \<Rightarrow> bool" where
  "at_places p x = (\<exists>k::int. x = of_int k / 10 ^ p)"

text \<open>The provisional share of a ratio whose quotient by the total is finite: the product
  of the rounded amount and the quotient, rounded.\<close>

definition provisional :: "env \<Rightarrow> money \<Rightarrow> jsnum \<Rightarrow> jsval \<Rightarrow> jsnum \<Rightarrow> money" where
  "provisional E amnt totl precision ratio =
     \<lparr>amount = round_to (places_of E amnt precision) (amount amnt * fin_value (fdiv E ratio totl)),
      currency = currency amnt\<rparr>"

text \<open>The errors that the methods \<open>allocate\<close> calls, and big.js under them, can throw: the
  TypeError of \<open>round\<close> for a precision, the errors of big.js, and the two currency errors.\<close>

definition callee_error :: "error \<Rightarrow> bool" where
  "callee_error e =
     (case e of
        TypeError msg \<Rightarrow> msg = ''Precision must be an integer''
      | InvalidPrecision \<Rightarrow> True
      | InvalidAmount \<Rightarrow> True
      | InvalidCurrency c \<Rightarrow> True
      | CurrencyMismatch \<Rightarrow> True
      | _ \<Rightarrow> False)"

subsection \<open>An environment for the examples\<close>

text \<open>Arithmetic on numbers where every finite result is exact, with the special values of
  IEEE-754: it is the arithmetic of doubles wherever no rounding occurs.\<close>

fun exact_add :: "jsnum \<Rightarrow> jsnum \<Rightarrow> jsnum" where
  "exact_add (Fin x) (Fin y) = Fin (x + y)"
| "exact_add NaN _ = NaN"
| "exact_add _ NaN = NaN"
| "exact_add PosInf NegInf = NaN"
| "exact_add NegInf PosInf = NaN"
| "exact_add PosInf _ = PosInf"
| "exact_add _ PosInf = PosInf"
| "exact_add NegInf _ = NegInf"
| "exact_add _ NegInf = NegInf"

fun exact_div :: "jsnum \<Rightarrow> jsnum \<Rightarrow> jsnum" where
  "exact_div (Fin x) (Fin y) =
     (if y = 0 then (if x = 0 then NaN else if 0 < x then PosInf else NegInf)
      else Fin (x / y))"
| "exact_div NaN _ = NaN"
| "exact_div _ NaN = NaN"
| "exact_div (Fin x) _ = Fin 0"
| "exact_div PosInf (Fin y) = (if 0 \<le> y then PosInf else NegInf)"
| "exact_div NegInf (Fin y) = (if 0 \<le> y then NegInf else PosInf)"
| "exact_div _ _ = NaN"

text \<open>Two decimal places for every currency but the yen, no textual amounts, and a forex
  service that knows no rate.\<close>

definition example_env :: env where
  "example_env =
     \<lparr>l10n_digits = (\<lambda>c. if c = ''JPY'' then 0 else 2),
      normalise = (\<lambda>s. Inr s),
      Big_parse = (\<lambda>s. None),
      forexService = (\<lambda>a b. Inr (Fulfilled Undefined)),
      fadd = exact_add,
      fdiv = exact_div\<rparr>"

text \<open>The same environment with a division that overflows: a quotient of magnitude
  \<open>2 ^ 1024\<close> or more, which is beyond every finite double, is an infinity.\<close>

definition overflow :: "jsnum \<Rightarrow> jsnum" where
  "overflow n =
     (case n of
        Fin q \<Rightarrow> if 2 ^ 1024 \<le> q then PosInf else if q \<le> - (2 ^ 1024) then NegInf else Fin q
      | _ \<Rightarrow> n)"

definition overflow_div :: "jsnum \<Rightarrow> jsnum \<Rightarrow> jsnum" where
  "overflow_div x y = overflow (exact_div x y)"

definition overflow_env :: env where
  "overflow_env = example_env\<lparr>fdiv := overflow_div\<rparr>"

section \<open>Auxiliary facts\<close>


lemma validate_BigV:
  "validate E (BigV b) c = (if iso4217 c then Inr \<lparr>amount = b, currency = c\<rparr> else Inl (InvalidCurrency c))"
  by (simp add: validate_def read_amount_def)

lemma validate_iso: "validate E a c = Inr m \<Longrightarrow> iso4217 (currency m) \<and> currency m = c"
  by (auto simp: validate_def split: sum.splits if_splits)

lemma Money_iso: "Money E args = Inr m \<Longrightarrow> iso4217 (currency m)"
  by (cases args) (auto dest: validate_iso)

lemma half_even_of_int: "half_even (of_int k) = k"
  by (simp add: half_even_def)

lemma half_even_tie: "half_even (of_int k + 1 / 2) = (if even k then k else k + 1)"
proof -
  have "\<lfloor>(of_int k :: rat) + 1 / 2\<rfloor> = k" by linarith
  then show ?thesis by (simp add: half_even_def Let_def)
qed

lemma Big_round_nat:
  "p \<le> MAX_DP \<Longrightarrow> Big_round x (Num (Fin (of_nat p))) roundingMode = Inr (round_to p x)"
  by (simp add: Big_round_def rnd_def roundingMode_def round_to_def)

lemma valid_precision_cases:
  assumes "valid_precision E m precision"
  obtains "precision = Undefined" "Money_precision E m \<le> MAX_DP"
  | n where "precision = Num (Fin (of_nat n))" "n \<le> MAX_DP"
proof (cases precision)
  case Undefined
  with assms that(1) show ?thesis by simp
next
  case (Num x)
  with assms obtain q where q: "precision = Num (Fin q)" "of_int \<lfloor>q\<rfloor> = q" "0 \<le> q" "q \<le> of_nat MAX_DP"
    by (cases x) auto
  define n where "n = nat \<lfloor>q\<rfloor>"
  have "of_nat n = q" using q by (simp add: n_def)
  moreover have "n \<le> MAX_DP" using q unfolding n_def by linarith
  ultimately show ?thesis using that(2) q(1) by blast
qed (use assms in auto)

lemma Money_round_valid:
  assumes "iso4217 (currency m)" "valid_precision E m precision"
  shows "Money_round E m precision =
           Inr \<lparr>amount = round_to (places_of E m precision) (amount m), currency = currency m\<rparr>"
  using assms(2)
proof (cases rule: valid_precision_cases)
  case 1
  then show ?thesis using assms(1)
    by (simp add: Money_round_def Big_round_nat validate_BigV)
next
  case (2 n)
  have "truthy precision \<longrightarrow> isInteger precision" using 2 by simp
  moreover have "precision \<noteq> Undefined" using 2 by simp
  ultimately show ?thesis using assms(1) 2
    by (simp add: Money_round_def Big_round_nat validate_BigV)
qed

lemma round_to_id: "round_to p (of_int k / 10 ^ p) = of_int k / 10 ^ p"
  by (simp add: round_to_def half_even_of_int)

lemma places_of_cong: "currency m = currency m' \<Longrightarrow> places_of E m precision = places_of E m' precision"
  by (cases "(E, m, precision)" rule: places_of.cases) (simp_all add: Money_precision_def)

lemma valid_precision_cong:
  "currency m = currency m' \<Longrightarrow> valid_precision E m precision = valid_precision E m' precision"
  by (cases "(E, m, precision)" rule: valid_precision.cases) (simp_all add: Money_precision_def)

lemma Money_times_fin:
  "iso4217 (currency m) \<Longrightarrow>
   Money_times E m (Num (Fin q)) = Inr \<lparr>amount = amount m * q, currency = currency m\<rparr>"
  by (simp add: Money_times_def validate_BigV)

lemma Money_plus_same:
  "iso4217 (currency x) \<Longrightarrow> currency y = currency x \<Longrightarrow>
   Money_plus E x y = Inr \<lparr>amount = amount x + amount y, currency = currency x\<rparr>"
  by (simp add: Money_plus_def validate_BigV)

lemma Money_minus_same:
  "iso4217 (currency x) \<Longrightarrow> currency y = currency x \<Longrightarrow>
   Money_minus E x y = Inr \<lparr>amount = amount x - amount y, currency = currency x\<rparr>"
  by (simp add: Money_minus_def validate_BigV)


lemma share_of_finite:
  assumes "iso4217 (currency amnt)" "valid_precision E amnt precision" "is_finite (fdiv E ratio totl)"
  shows "share_of E amnt totl precision ratio = Inr (provisional E amnt totl precision ratio)"
proof -
  from assms(3) obtain q where q: "fdiv E ratio totl = Fin q"
    by (cases "fdiv E ratio totl") auto
  let ?t = "\<lparr>amount = amount amnt * q, currency = currency amnt\<rparr>"
  have t: "Money_times E amnt (Num (fdiv E ratio totl)) = Inr ?t"
    using assms(1) q by (simp add: Money_times_fin)
  have "valid_precision E ?t precision"
    using assms(2) valid_precision_cong [of ?t amnt E precision] by simp
  then have "Money_round E ?t precision =
      Inr \<lparr>amount = round_to (places_of E ?t precision) (amount ?t), currency = currency ?t\<rparr>"
    using assms(1) by (intro Money_round_valid) simp_all
  moreover have "places_of E ?t precision = places_of E amnt precision"
    by (rule places_of_cong) simp
  ultimately show ?thesis using t q by (simp add: share_of_def provisional_def)
qed

lemma shares_of_finite:
  assumes "iso4217 (currency amnt)" "valid_precision E amnt precision"
    "list_all (\<lambda>r. is_finite (fdiv E r totl)) ratios" "currency remainder = currency amnt"
  shows "shares_of E amnt totl precision ratios remainder =
           Inr (map (provisional E amnt totl precision) ratios,
                \<lparr>amount = amount remainder - sum_list (map (\<lambda>r. amount (provisional E amnt totl precision r)) ratios),
                 currency = currency amnt\<rparr>)"
  using assms(3,4)
proof (induction ratios arbitrary: remainder)
  case Nil
  then show ?case by simp
next
  case (Cons r rs)
  let ?s = "provisional E amnt totl precision r"
  have s: "share_of E amnt totl precision r = Inr ?s"
    using assms(1,2) Cons.prems(1) by (simp add: share_of_finite)
  have cs: "currency ?s = currency amnt" by (simp add: provisional_def)
  let ?r' = "\<lparr>amount = amount remainder - amount ?s, currency = currency remainder\<rparr>"
  have m: "Money_minus E remainder ?s = Inr ?r'"
    using assms(1) Cons.prems(2) cs by (simp add: Money_minus_same)
  have "shares_of E amnt totl precision rs ?r' =
      Inr (map (provisional E amnt totl precision) rs,
           \<lparr>amount = amount ?r' - sum_list (map (\<lambda>r. amount (provisional E amnt totl precision r)) rs),
            currency = currency amnt\<rparr>)"
    using Cons.prems by (intro Cons.IH) simp_all
  then show ?case using s m by (simp add: algebra_simps)
qed



lemma at_places_round_to: "at_places p (round_to p x)"
  unfolding at_places_def round_to_def by blast

lemma at_places_add: "at_places p x \<Longrightarrow> at_places p y \<Longrightarrow> at_places p (x + y)"
  unfolding at_places_def
proof -
  assume "\<exists>k::int. x = of_int k / 10 ^ p" "\<exists>k::int. y = of_int k / 10 ^ p"
  then obtain a b :: int where "x = of_int a / 10 ^ p" "y = of_int b / 10 ^ p" by blast
  then have "x + y = of_int (a + b) / 10 ^ p" by (simp add: add_divide_distrib)
  then show "\<exists>k::int. x + y = of_int k / 10 ^ p" by blast
qed

lemma at_places_diff: "at_places p x \<Longrightarrow> at_places p y \<Longrightarrow> at_places p (x - y)"
  unfolding at_places_def
proof -
  assume "\<exists>k::int. x = of_int k / 10 ^ p" "\<exists>k::int. y = of_int k / 10 ^ p"
  then obtain a b :: int where "x = of_int a / 10 ^ p" "y = of_int b / 10 ^ p" by blast
  then have "x - y = of_int (a - b) / 10 ^ p" by (simp add: diff_divide_distrib)
  then show "\<exists>k::int. x - y = of_int k / 10 ^ p" by blast
qed

lemma at_places_zero: "at_places p 0"
  unfolding at_places_def by (rule exI [of _ 0]) simp

lemma at_places_sum_list: "list_all (at_places p) xs \<Longrightarrow> at_places p (sum_list xs)"
  by (induction xs) (simp_all add: at_places_zero at_places_add)

lemma round_to_at_places: "at_places p x \<Longrightarrow> round_to p x = x"
  unfolding at_places_def using round_to_id by blast

lemma allocate_core:
  assumes iso: "iso4217 (currency m)" and vp: "valid_precision E m precision"
    and ne: "ratios \<noteq> []"
    and fin: "list_all (\<lambda>r. is_finite (fdiv E r (total_of E ratios))) ratios"
  defines "amnt \<equiv> \<lparr>amount = round_to (places_of E m precision) (amount m), currency = currency m\<rparr>"
  defines "ps \<equiv> map (provisional E amnt (total_of E ratios) precision) ratios"
  shows "Money_allocate E m (Array ratios) precision =
           Inr ((hd ps)\<lparr>amount := amount (hd ps) + (amount amnt - sum_list (map amount ps))\<rparr> # tl ps)"
proof -
  let ?p = "places_of E m precision"
  have r: "Money_round E m precision = Inr amnt"
    unfolding amnt_def using iso vp by (rule Money_round_valid)
  have ca: "currency amnt = currency m" by (simp add: amnt_def)
  have isoa: "iso4217 (currency amnt)" using iso ca by simp
  have vpa: "valid_precision E amnt precision"
    using vp valid_precision_cong [OF ca, of E precision] by simp
  have pa: "places_of E amnt precision = ?p" using ca by (rule places_of_cong)
  let ?rem = "\<lparr>amount = amount amnt - sum_list (map amount ps), currency = currency amnt\<rparr>"
  have "shares_of E amnt (total_of E ratios) precision ratios amnt =
      Inr (map (provisional E amnt (total_of E ratios) precision) ratios,
           \<lparr>amount = amount amnt - sum_list (map (\<lambda>r. amount (provisional E amnt (total_of E ratios) precision r)) ratios),
            currency = currency amnt\<rparr>)"
    using isoa vpa fin by (intro shares_of_finite) simp_all
  then have sh: "shares_of E amnt (total_of E ratios) precision ratios amnt = Inr (ps, ?rem)"
    by (simp add: ps_def comp_def)
  from ne obtain s ss where ps: "ps = s # ss" by (cases ratios) (auto simp: ps_def)
  have cs: "currency s = currency amnt" using ps ne by (cases ratios) (auto simp: ps_def provisional_def)
  have "list_all (at_places ?p) (map amount ps)"
    unfolding ps_def by (simp add: list_all_iff provisional_def pa at_places_round_to)
  then have sum_ap: "at_places ?p (sum_list (map amount ps))" by (rule at_places_sum_list)
  have "at_places ?p (amount amnt)" by (simp add: amnt_def at_places_round_to)
  then have rem_ap: "at_places ?p (amount ?rem)" using sum_ap by (simp add: at_places_diff)
  have "at_places ?p (amount s)" using ps ne by (cases ratios) (auto simp: ps_def provisional_def pa at_places_round_to)
  then have s'_ap: "at_places ?p (amount s + amount ?rem)" using rem_ap by (rule at_places_add)
  have ab: "absorb E precision ps ?rem = Inr (s\<lparr>amount := amount s + amount ?rem\<rparr> # ss)"
  proof (cases "isNotZero ?rem")
    case True
    let ?s' = "\<lparr>amount = amount s + amount ?rem, currency = currency s\<rparr>"
    have pl: "Money_plus E s ?rem = Inr ?s'"
      using isoa cs by (simp add: Money_plus_same)
    have "valid_precision E ?s' precision"
      using vpa valid_precision_cong [of ?s' amnt E precision] cs by simp
    moreover have "iso4217 (currency ?s')" using isoa cs by simp
    ultimately have "Money_round E ?s' precision =
        Inr \<lparr>amount = round_to (places_of E ?s' precision) (amount ?s'), currency = currency ?s'\<rparr>"
      by (rule Money_round_valid [rotated])
    moreover have "places_of E ?s' precision = ?p"
      using places_of_cong [of ?s' amnt E precision] cs pa by simp
    ultimately have "Money_round E ?s' precision = Inr ?s'"
      using s'_ap by (simp add: round_to_at_places)
    then show ?thesis using True pl ps by (simp add: absorb_def)
  next
    case False
    then have "amount ?rem = 0" by (simp add: isNotZero_def cmp_def zero_def split: if_splits)
    then show ?thesis using False ps by (simp add: absorb_def)
  qed
  show ?thesis using ne r sh ab ps by (simp add: Money_allocate_def Let_def)
qed


lemma le_num_trans: "le_num a b \<Longrightarrow> le_num b c \<Longrightarrow> le_num a c"
  by (cases a; cases b; cases c) auto

lemma finite_nonneg_nonneg: "finite_nonneg r \<Longrightarrow> nonneg r"
  by (cases r) auto

lemma foldl_fadd_ge:
  assumes "ieee_nonneg E"
  shows "list_all finite_nonneg ratios \<Longrightarrow> nonneg a \<Longrightarrow>
         nonneg (foldl (fadd E) a ratios) \<and> le_num a (foldl (fadd E) a ratios) \<and>
         list_all (\<lambda>r. le_num r (foldl (fadd E) a ratios)) ratios"
proof (induction ratios arbitrary: a)
  case Nil
  then show ?case by (cases a) auto
next
  case (Cons r rs)
  have nr: "nonneg r" using Cons.prems(1) by (simp add: finite_nonneg_nonneg)
  have step: "nonneg (fadd E a r)" "le_num a (fadd E a r)" "le_num r (fadd E a r)"
    using assms Cons.prems(2) nr unfolding ieee_nonneg_def by blast+
  have ih: "nonneg (foldl (fadd E) (fadd E a r) rs)"
    "le_num (fadd E a r) (foldl (fadd E) (fadd E a r) rs)"
    "list_all (\<lambda>x. le_num x (foldl (fadd E) (fadd E a r) rs)) rs"
    using Cons.IH [of "fadd E a r"] Cons.prems(1) step(1) by simp_all
  show ?case using ih step by (auto intro: le_num_trans)
qed

lemma quotient_finite:
  assumes "ieee_nonneg E" "finite_nonneg r" "le_num r t" "positive t"
  shows "is_finite (fdiv E r t)"
proof -
  from assms(2) obtain q where q: "r = Fin q" "0 \<le> q" by (cases r) auto
  show ?thesis
  proof (cases t)
    case (Fin u)
    then have "q \<le> u" "0 < u" using assms(3,4) q by simp_all
    then show ?thesis using assms(1) q Fin unfolding ieee_nonneg_def by blast
  next
    case PosInf
    then show ?thesis using assms(1) q unfolding ieee_nonneg_def by blast
  qed (use assms(4) in auto)
qed

lemma quotients_finite:
  assumes "ieee_nonneg E" "list_all finite_nonneg ratios" "positive (total_of E ratios)"
  shows "list_all (\<lambda>r. is_finite (fdiv E r (total_of E ratios))) ratios"
proof -
  have "list_all (\<lambda>r. le_num r (total_of E ratios)) ratios"
    using foldl_fadd_ge [OF assms(1,2), of "Fin 0"] by (simp add: total_of_def)
  then show ?thesis using assms
    by (auto simp: list_all_iff intro: quotient_finite)
qed

lemma example_env_ieee_nonneg: "ieee_nonneg example_env"
  unfolding ieee_nonneg_def example_env_def
  apply (intro conjI allI impI)
  subgoal for a b by (cases a; cases b) auto
  subgoal for a b by (cases a; cases b) auto
  subgoal for a b by (cases a; cases b) auto
  subgoal for q t by auto
  subgoal for q by auto
  done

lemma example_env_ieee_div_zero: "ieee_div_zero example_env"
  unfolding ieee_div_zero_def example_env_def
  apply (intro allI)
  subgoal for x by (cases x) auto
  done

lemma floor_numeral_div: "\<lfloor>(numeral a :: rat) / numeral b\<rfloor> = numeral a div numeral b"
  using floor_divide_of_int_eq [of "numeral a" "numeral b", where ?'a = rat] by simp

lemma floor_neg_numeral_div: "\<lfloor>- ((numeral a :: rat) / numeral b)\<rfloor> = - numeral a div numeral b"
  using floor_divide_of_int_eq [of "- numeral a" "numeral b", where ?'a = rat] by simp

text \<open>The equations that evaluate the methods on a concrete input.\<close>

lemmas eval_defs =
  Money_allocate_def example_env_def total_of_def Money_round_def Money_precision_def
  Big_round_def MAX_DP_def rnd_def roundingMode_def half_even_def Let_def validate_def read_amount_def
  iso4217_def share_of_def Money_times_def Money_minus_def Money_plus_def absorb_def
  isNotZero_def cmp_def zero_def floor_numeral_div floor_neg_numeral_div

lemma iso4217_USD: "iso4217 ''USD''"
  by (simp add: iso4217_def)

lemma iso4217_JPY: "iso4217 ''JPY''"
  by (simp add: iso4217_def)

lemma iso4217_EUR: "iso4217 ''EUR''"
  by (simp add: iso4217_def)

lemma example_env_ieee_div_nan: "ieee_div_nan example_env"
  unfolding ieee_div_nan_def example_env_def
  apply (intro allI impI)
  subgoal for x t by (cases x; cases t) auto
  done

lemma Money_times_not_finite:
  "\<not> is_finite n \<Longrightarrow> Money_times E m (Num n) = Inl InvalidAmount"
  by (cases n) (simp_all add: Money_times_def)

lemma shares_of_not_finite:
  "\<not> is_finite (fdiv E ratio totl) \<Longrightarrow>
   shares_of E amnt totl precision (ratio # ratios) remainder = Inl InvalidAmount"
  by (simp add: share_of_def Money_times_not_finite)

lemma Big_round_not_TypeError: "Big_round x dp rm \<noteq> Inl (TypeError msg)"
  by (auto simp: Big_round_def Let_def split: option.splits jsval.splits jsnum.splits)

lemma validate_BigV_not_TypeError: "validate E (BigV b) c \<noteq> Inl (TypeError msg)"
  by (simp add: validate_BigV)

lemma Money_plus_iso: "Money_plus E x y = Inr m \<Longrightarrow> iso4217 (currency m)"
  by (auto simp: Money_plus_def split: if_splits dest: validate_iso)

lemma Money_minus_iso: "Money_minus E x y = Inr m \<Longrightarrow> iso4217 (currency m)"
  by (auto simp: Money_minus_def split: if_splits dest: validate_iso)

lemma Money_times_iso: "Money_times E x v = Inr m \<Longrightarrow> iso4217 (currency m)"
  by (auto simp: Money_times_def split: jsval.splits sum.splits dest: validate_iso)

lemma Money_round_iso: "Money_round E x precision = Inr m \<Longrightarrow> iso4217 (currency m)"
  by (auto simp: Money_round_def Let_def split: if_splits sum.splits dest: validate_iso)

lemma share_of_iso: "share_of E amnt totl precision ratio = Inr s \<Longrightarrow> iso4217 (currency s)"
  by (auto simp: share_of_def split: sum.splits dest: Money_round_iso)

lemma shares_of_iso:
  "shares_of E amnt totl precision ratios remainder = Inr (shares, r) \<Longrightarrow>
   list_all (\<lambda>s. iso4217 (currency s)) shares"
proof (induction ratios arbitrary: remainder shares r)
  case Nil
  then show ?case by simp
next
  case (Cons a ratios)
  then show ?case
    by (auto split: sum.splits prod.splits dest: share_of_iso)
qed

lemma absorb_iso:
  "list_all (\<lambda>s. iso4217 (currency s)) shares \<Longrightarrow> absorb E precision shares remainder = Inr shares' \<Longrightarrow>
   list_all (\<lambda>s. iso4217 (currency s)) shares'"
  by (auto simp: absorb_def split: if_splits list.splits sum.splits dest: Money_round_iso)

lemma Money_allocate_iso:
  "Money_allocate E x ratios precision = Inr shares \<Longrightarrow> list_all (\<lambda>s. iso4217 (currency s)) shares"
  by (auto simp: Money_allocate_def Let_def split: ratios_in.splits if_splits sum.splits prod.splits
      dest!: shares_of_iso intro: absorb_iso)

lemma on_rate_iso: "on_rate E x target rate = Fulfilled m \<Longrightarrow> iso4217 (currency m)"
  by (auto simp: on_rate_def split: if_splits sum.splits dest: validate_iso)

lemma Money_to_iso:
  "iso4217 (currency x) \<Longrightarrow> fst (Money_to E x target) = Inr (Fulfilled m) \<Longrightarrow> iso4217 (currency m)"
  by (auto simp: Money_to_def split: if_splits sum.splits promise.splits dest: on_rate_iso)

lemma validate_BigV_callee: "validate E (BigV b) c = Inl e \<Longrightarrow> callee_error e"
  by (auto simp: validate_BigV callee_error_def split: if_splits)

lemma Big_round_callee: "Big_round x dp rm = Inl e \<Longrightarrow> callee_error e"
  by (auto simp: Big_round_def Let_def callee_error_def split: option.splits)

lemma Money_round_callee: "Money_round E m precision = Inl e \<Longrightarrow> callee_error e"
  by (auto simp: Money_round_def Let_def split: if_splits sum.splits
      dest: validate_BigV_callee Big_round_callee) (simp add: callee_error_def)

lemma Money_times_num_callee: "Money_times E m (Num n) = Inl e \<Longrightarrow> callee_error e"
  by (cases n) (auto simp: Money_times_def callee_error_def dest: validate_BigV_callee)

lemma Money_minus_callee: "Money_minus E x y = Inl e \<Longrightarrow> callee_error e"
  by (auto simp: Money_minus_def split: if_splits dest: validate_BigV_callee) (simp add: callee_error_def)

lemma Money_plus_callee: "Money_plus E x y = Inl e \<Longrightarrow> callee_error e"
  by (auto simp: Money_plus_def split: if_splits dest: validate_BigV_callee) (simp add: callee_error_def)

lemma share_of_callee: "share_of E amnt totl precision ratio = Inl e \<Longrightarrow> callee_error e"
  by (auto simp: share_of_def split: sum.splits dest: Money_times_num_callee Money_round_callee)

lemma shares_of_callee:
  "shares_of E amnt totl precision ratios remainder = Inl e \<Longrightarrow> callee_error e"
proof (induction ratios arbitrary: remainder)
  case Nil
  then show ?case by simp
next
  case (Cons r rs)
  then show ?case
    by (auto split: sum.splits prod.splits dest: share_of_callee Money_minus_callee)
qed

lemma shares_of_length:
  "shares_of E amnt totl precision ratios remainder = Inr (shares, r) \<Longrightarrow>
   length shares = length ratios"
proof (induction ratios arbitrary: remainder shares r)
  case Nil
  then show ?case by simp
next
  case (Cons a ratios)
  then show ?case by (auto split: sum.splits prod.splits)
qed

lemma absorb_callee:
  "shares \<noteq> [] \<Longrightarrow> absorb E precision shares remainder = Inl e \<Longrightarrow> callee_error e"
  by (auto simp: absorb_def split: if_splits list.splits sum.splits
      dest: Money_plus_callee Money_round_callee)

lemma Money_allocate_callee:
  assumes "ratios \<noteq> []" "Money_allocate E m (Array ratios) precision = Inl e"
  shows "callee_error e"
proof (cases "Money_round E m precision")
  case (Inl e')
  then show ?thesis using assms by (auto simp: Money_allocate_def Let_def dest: Money_round_callee)
next
  case (Inr amnt)
  show ?thesis
  proof (cases "shares_of E amnt (total_of E ratios) precision ratios amnt")
    case (Inl e')
    then show ?thesis using assms Inr
      by (auto simp: Money_allocate_def Let_def dest: shares_of_callee)
  next
    case (Inr sr)
    obtain shares r where sr: "sr = (shares, r)" by (cases sr)
    have "length shares = length ratios" using Inr sr by (auto dest: shares_of_length)
    then have "shares \<noteq> []" using assms(1) by auto
    then show ?thesis using assms \<open>Money_round E m precision = Inr amnt\<close> Inr sr
      by (auto simp: Money_allocate_def Let_def dest: absorb_callee)
  qed
qed

lemma two_1024_le: "(2::rat) ^ 1024 \<le> 10 ^ 308 * 10"
proof -
  have "(2::nat) ^ 1024 \<le> 10 ^ 308 * 10" by simp
  then have "of_nat ((2::nat) ^ 1024) \<le> (of_nat (10 ^ 308 * 10) :: rat)"
    by (simp only: of_nat_le_iff)
  then show ?thesis by (simp only: of_nat_power of_nat_mult of_nat_numeral)
qed

lemma overflow_allocate:
  assumes "2 ^ 1024 \<le> a * 10"
  shows "list_all is_finite [Fin a, Fin (- a), Fin (1 / 10)] \<and>
   total_of overflow_env [Fin a, Fin (- a), Fin (1 / 10)] = Fin (1 / 10) \<and>
   nonzero (total_of overflow_env [Fin a, Fin (- a), Fin (1 / 10)]) \<and>
   fdiv overflow_env (Fin a) (Fin (1 / 10)) = PosInf \<and>
   Money_allocate overflow_env \<lparr>amount = 10, currency = ''USD''\<rparr>
     (Array [Fin a, Fin (- a), Fin (1 / 10)]) Undefined = Inl InvalidAmount"
proof -
  have t: "total_of overflow_env [Fin a, Fin (- a), Fin (1 / 10)] = Fin (1 / 10)"
    by (simp add: total_of_def overflow_env_def example_env_def)
  have d: "fdiv overflow_env (Fin a) (Fin (1 / 10)) = PosInf"
    using assms by (simp add: overflow_env_def overflow_div_def overflow_def)
  have r: "Money_round overflow_env \<lparr>amount = 10, currency = ''USD''\<rparr> Undefined =
      Inr \<lparr>amount = 10, currency = ''USD''\<rparr>"
    by (simp add: overflow_env_def eval_defs)
  have "shares_of overflow_env amnt (Fin (1 / 10)) Undefined
      [Fin a, Fin (- a), Fin (1 / 10)] amnt = Inl InvalidAmount" for amnt
    using d by (intro shares_of_not_finite) simp
  then show ?thesis using t d r by (simp add: Money_allocate_def Let_def)
qed

lemma allocate_shares:
  assumes "iso4217 (currency m)" and "ratios \<noteq> []" and "valid_precision E m precision"
    and fin: "list_all (\<lambda>r. is_finite (fdiv E r (total_of E ratios))) ratios"
  shows "\<exists>amnt shares ps.
           Money_round E m precision = Inr amnt \<and>
           Money_allocate E m (Array ratios) precision = Inr shares \<and>
           sum_list (map amount shares) = amount amnt \<and>
           length shares = length ratios \<and>
           list_all (\<lambda>s. currency s = currency m) shares \<and>
           map (share_of E amnt (total_of E ratios) precision) ratios = map Inr ps \<and>
           tl shares = tl ps \<and>
           amount (hd shares) = amount (hd ps) + (amount amnt - sum_list (map amount ps))"
proof -
  define amnt where "amnt = \<lparr>amount = round_to (places_of E m precision) (amount m), currency = currency m\<rparr>"
  define ps where "ps = map (provisional E amnt (total_of E ratios) precision) ratios"
  define shares where
    "shares = (hd ps)\<lparr>amount := amount (hd ps) + (amount amnt - sum_list (map amount ps))\<rparr> # tl ps"
  have r: "Money_round E m precision = Inr amnt"
    unfolding amnt_def using assms(1,3) by (rule Money_round_valid)
  have a: "Money_allocate E m (Array ratios) precision = Inr shares"
    unfolding shares_def ps_def amnt_def using assms(1,3,2) fin by (rule allocate_core)
  have ne: "ps \<noteq> []" using assms(2) by (simp add: ps_def)
  have "sum_list (map amount ps) = amount (hd ps) + sum_list (map amount (tl ps))"
    using ne by (cases ps) simp_all
  then have s: "sum_list (map amount shares) = amount amnt" by (simp add: shares_def)
  have l: "length shares = length ratios" using ne by (simp add: shares_def ps_def)
  have "list_all (\<lambda>s. currency s = currency m) ps"
    by (simp add: ps_def list_all_iff provisional_def amnt_def)
  then have c: "list_all (\<lambda>s. currency s = currency m) shares"
    using ne by (cases ps) (simp_all add: shares_def)
  have "iso4217 (currency amnt)" "valid_precision E amnt precision"
    using assms(1,3) valid_precision_cong [of amnt m E precision] by (simp_all add: amnt_def)
  then have p: "map (share_of E amnt (total_of E ratios) precision) ratios = map Inr ps"
    using fin by (simp add: ps_def list_all_iff share_of_finite)
  have t: "tl shares = tl ps" by (simp add: shares_def)
  have h: "amount (hd shares) = amount (hd ps) + (amount amnt - sum_list (map amount ps))"
    by (simp add: shares_def)
  show ?thesis using r a s l c p t h by blast
qed

section \<open>Allocation\<close>

text \<open>
  C1. For a Money \<open>m\<close>, a non-empty array of finite non-negative ratios whose total is
  positive and a valid precision, \<open>m.allocate(ratios, precision)\<close> returns shares whose
  amounts sum exactly to the amount of \<open>m.round(precision)\<close>. There are as many shares as
  ratios, each in the currency of \<open>m\<close>; the share at every position but the first is the
  rounded share of the ratio at that position, and the first is the rounded share of the
  first ratio plus the whole rounding error. The numbers are added and divided by the
  arithmetic of the environment, of which only \<open>ieee_nonneg\<close> is used.
\<close>

theorem allocate_sums_to_rounded:
  assumes "iso4217 (currency m)" and "ratios \<noteq> []" and "valid_precision E m precision"
    and "list_all finite_nonneg ratios" and "positive (total_of E ratios)" and "ieee_nonneg E"
  shows "\<exists>amnt shares ps.
           Money_round E m precision = Inr amnt \<and>
           Money_allocate E m (Array ratios) precision = Inr shares \<and>
           sum_list (map amount shares) = amount amnt \<and>
           length shares = length ratios \<and>
           list_all (\<lambda>s. currency s = currency m) shares \<and>
           map (share_of E amnt (total_of E ratios) precision) ratios = map Inr ps \<and>
           tl shares = tl ps \<and>
           amount (hd shares) = amount (hd ps) + (amount amnt - sum_list (map amount ps))"
proof -
  define amnt where "amnt = \<lparr>amount = round_to (places_of E m precision) (amount m), currency = currency m\<rparr>"
  define ps where "ps = map (provisional E amnt (total_of E ratios) precision) ratios"
  define shares where
    "shares = (hd ps)\<lparr>amount := amount (hd ps) + (amount amnt - sum_list (map amount ps))\<rparr> # tl ps"
  have fin: "list_all (\<lambda>r. is_finite (fdiv E r (total_of E ratios))) ratios"
    using assms(6,4,5) by (rule quotients_finite)
  have r: "Money_round E m precision = Inr amnt"
    unfolding amnt_def using assms(1,3) by (rule Money_round_valid)
  have a: "Money_allocate E m (Array ratios) precision = Inr shares"
    unfolding shares_def ps_def amnt_def using assms(1,3,2) fin by (rule allocate_core)
  have ne: "ps \<noteq> []" using assms(2) by (simp add: ps_def)
  then have hdtl: "ps = hd ps # tl ps" by simp
  have "sum_list (map amount ps) = amount (hd ps) + sum_list (map amount (tl ps))"
    using ne by (cases ps) simp_all
  then have s: "sum_list (map amount shares) = amount amnt" by (simp add: shares_def)
  have l: "length shares = length ratios" using ne by (simp add: shares_def ps_def)
  have "list_all (\<lambda>s. currency s = currency m) ps"
    by (simp add: ps_def list_all_iff provisional_def amnt_def)
  then have c: "list_all (\<lambda>s. currency s = currency m) shares"
    using ne by (cases ps) (simp_all add: shares_def)
  have "iso4217 (currency amnt)" "valid_precision E amnt precision"
    using assms(1,3) valid_precision_cong [of amnt m E precision] by (simp_all add: amnt_def)
  then have p: "map (share_of E amnt (total_of E ratios) precision) ratios = map Inr ps"
    using fin by (simp add: ps_def list_all_iff share_of_finite)
  have t: "tl shares = tl ps" by (simp add: shares_def)
  have h: "amount (hd shares) = amount (hd ps) + (amount amnt - sum_list (map amount ps))"
    by (simp add: shares_def)
  show ?thesis using r a s l c p t h by blast
qed

theorem allocate_sums_to_rounded_witness:
  "(\<exists>amnt shares ps.
      Money_round example_env \<lparr>amount = 5 / 100, currency = ''USD''\<rparr> Undefined = Inr amnt \<and>
      Money_allocate example_env \<lparr>amount = 5 / 100, currency = ''USD''\<rparr>
        (Array [Fin 1, Fin 1]) Undefined = Inr shares \<and>
      sum_list (map amount shares) = amount amnt \<and>
      length shares = length [Fin 1, Fin 1] \<and>
      list_all (\<lambda>s. currency s = currency \<lparr>amount = 5 / 100, currency = ''USD''\<rparr>) shares \<and>
      map (share_of example_env amnt (total_of example_env [Fin 1, Fin 1]) Undefined) [Fin 1, Fin 1] =
        map Inr ps \<and>
      tl shares = tl ps \<and>
      amount (hd shares) = amount (hd ps) + (amount amnt - sum_list (map amount ps))) \<and>
   Money_allocate example_env \<lparr>amount = 5 / 100, currency = ''USD''\<rparr> (Array [Fin 1, Fin 1]) Undefined =
     Inr [\<lparr>amount = 3 / 100, currency = ''USD''\<rparr>, \<lparr>amount = 2 / 100, currency = ''USD''\<rparr>]"
proof -
  let ?m = "\<lparr>amount = 5 / 100, currency = ''USD''\<rparr>"
  have h1: "iso4217 (currency ?m)" by (simp add: iso4217_USD)
  have h2: "[Fin 1, Fin 1] \<noteq> []" by simp
  have h3: "valid_precision example_env ?m Undefined"
    by (simp add: Money_precision_def example_env_def MAX_DP_def)
  have h4: "list_all finite_nonneg [Fin 1, Fin 1]" by simp
  have h5: "positive (total_of example_env [Fin 1, Fin 1])"
    by (simp add: total_of_def example_env_def)
  have e: "Money_allocate example_env ?m (Array [Fin 1, Fin 1]) Undefined =
     Inr [\<lparr>amount = 3 / 100, currency = ''USD''\<rparr>, \<lparr>amount = 2 / 100, currency = ''USD''\<rparr>]"
    by (simp add: eval_defs)
  show ?thesis
    using allocate_sums_to_rounded [OF h1 h2 h3 h4 h5 example_env_ieee_nonneg] e by blast
qed

text \<open>
  C2, as the code has it. When the total of a non-empty array of ratios is zero,
  \<open>allocate\<close> fails: with the error of \<open>this.round(precision)\<close> when that fails, and
  otherwise with the error big.js throws for the first quotient, which is NaN or an infinity
  (\<open>InvalidAmount\<close>). Nothing tests the total, and no other error is raised for it.
\<close>

theorem allocate_zero_total:
  assumes "ratios \<noteq> []" and "total_of E ratios = Fin 0" and "ieee_div_zero E"
  shows "Money_allocate E m (Array ratios) precision =
           (case Money_round E m precision of Inl e \<Rightarrow> Inl e | Inr amnt \<Rightarrow> Inl InvalidAmount)"
proof -
  from assms(1) obtain r rs where rs: "ratios = r # rs" by (cases ratios) auto
  have "\<not> is_finite (fdiv E r (total_of E ratios))"
    using assms(2,3) by (simp add: ieee_div_zero_def)
  then have "shares_of E amnt (total_of E ratios) precision ratios amnt = Inl InvalidAmount" for amnt
    unfolding rs by (rule shares_of_not_finite)
  then show ?thesis using assms(1)
    by (simp add: Money_allocate_def Let_def split: sum.splits)
qed

theorem allocate_zero_total_witness:
  "[Fin 1, Fin (- 1)] \<noteq> [] \<and> total_of example_env [Fin 1, Fin (- 1)] = Fin 0 \<and>
   Money_allocate example_env \<lparr>amount = 10, currency = ''USD''\<rparr> (Array [Fin 1, Fin (- 1)]) Undefined =
     Inl InvalidAmount"
proof -
  have h1: "[Fin 1, Fin (- 1)] \<noteq> []" by simp
  have h2: "total_of example_env [Fin 1, Fin (- 1)] = Fin 0"
    by (simp add: total_of_def example_env_def)
  have r: "Money_round example_env \<lparr>amount = 10, currency = ''USD''\<rparr> Undefined =
      Inr \<lparr>amount = 10, currency = ''USD''\<rparr>"
    by (simp add: eval_defs)
  show ?thesis
    using allocate_zero_total [OF h1 h2 example_env_ieee_div_zero,
        of "\<lparr>amount = 10, currency = ''USD''\<rparr>" Undefined] h2 r
    by simp
qed

text \<open>\<open>Money(10, 'USD').allocate([0, 0])\<close>: the total is 0, the first quotient is
  \<open>0 / 0\<close>, which is NaN, and \<open>amount.times(NaN)\<close> throws the error of big.js.\<close>

theorem allocate_zero_total_counterexample:
  "Money_allocate example_env \<lparr>amount = 10, currency = ''USD''\<rparr> (Array [Fin 0, Fin 0]) Undefined =
     Inl InvalidAmount \<and>
   Money_allocate example_env \<lparr>amount = 10, currency = ''USD''\<rparr> (Array [Fin 0, Fin 0]) Undefined \<noteq>
     Inl InvalidAllocation"
  by (simp add: eval_defs)

text \<open>
  C10, as the code has it. \<open>allocate\<close> tests only that \<open>ratios\<close> is an array and that it
  is not empty; the sign of a ratio is never tested. For a non-empty array of finite
  numbers, negative ones included, whose total is a number other than zero, it returns one
  share per ratio, provided no division of a ratio by the total overflows to an infinity:
  the share at every position but the first is the rounded share of the ratio at that
  position, the first is the rounded share of the first ratio plus the whole rounding error,
  and the shares sum to the rounded amount. Whatever the ratios of a non-empty array, an
  error of \<open>allocate\<close> is one thrown by a method it calls or by big.js, never one of its own
  about \<open>ratios\<close>.
\<close>

theorem allocate_argument_checks:
  "Money_allocate E m (NotArray v) precision = Inl (TypeError ''Money allocation needs an Array'') \<and>
   Money_allocate E m (Array []) precision =
     Inl (TypeError ''Money allocation needs a non-empty Array'') \<and>
   (iso4217 (currency m) \<and> valid_precision E m precision \<and> ieee_div_nan E \<and>
    ratios \<noteq> [] \<and> list_all is_finite ratios \<and> nonzero (total_of E ratios) \<and>
    list_all (\<lambda>r. \<not> is_infinite (fdiv E r (total_of E ratios))) ratios \<longrightarrow>
    (\<exists>amnt shares ps.
       Money_round E m precision = Inr amnt \<and>
       Money_allocate E m (Array ratios) precision = Inr shares \<and>
       sum_list (map amount shares) = amount amnt \<and>
       length shares = length ratios \<and>
       list_all (\<lambda>s. currency s = currency m) shares \<and>
       map (share_of E amnt (total_of E ratios) precision) ratios = map Inr ps \<and>
       tl shares = tl ps \<and>
       amount (hd shares) = amount (hd ps) + (amount amnt - sum_list (map amount ps)))) \<and>
   (ratios \<noteq> [] \<and> Money_allocate E m (Array ratios) precision = Inl e \<longrightarrow> callee_error e)"
proof (intro conjI impI)
  show "Money_allocate E m (NotArray v) precision = Inl (TypeError ''Money allocation needs an Array'')"
    by (simp add: Money_allocate_def)
  show "Money_allocate E m (Array []) precision =
     Inl (TypeError ''Money allocation needs a non-empty Array'')"
    by (simp add: Money_allocate_def)
next
  assume a: "iso4217 (currency m) \<and> valid_precision E m precision \<and> ieee_div_nan E \<and>
    ratios \<noteq> [] \<and> list_all is_finite ratios \<and> nonzero (total_of E ratios) \<and>
    list_all (\<lambda>r. \<not> is_infinite (fdiv E r (total_of E ratios))) ratios"
  have "is_finite (fdiv E r (total_of E ratios))" if "r \<in> set ratios" for r
  proof -
    have "is_finite r" "\<not> is_infinite (fdiv E r (total_of E ratios))"
      using a that by (simp_all add: list_all_iff)
    moreover from this have "fdiv E r (total_of E ratios) \<noteq> NaN"
      using a unfolding ieee_div_nan_def by blast
    ultimately show ?thesis by (cases "fdiv E r (total_of E ratios)") auto
  qed
  then have fin: "list_all (\<lambda>r. is_finite (fdiv E r (total_of E ratios))) ratios"
    by (simp add: list_all_iff)
  have h: "iso4217 (currency m)" "ratios \<noteq> []" "valid_precision E m precision"
    using a by simp_all
  show "\<exists>amnt shares ps.
       Money_round E m precision = Inr amnt \<and>
       Money_allocate E m (Array ratios) precision = Inr shares \<and>
       sum_list (map amount shares) = amount amnt \<and>
       length shares = length ratios \<and>
       list_all (\<lambda>s. currency s = currency m) shares \<and>
       map (share_of E amnt (total_of E ratios) precision) ratios = map Inr ps \<and>
       tl shares = tl ps \<and>
       amount (hd shares) = amount (hd ps) + (amount amnt - sum_list (map amount ps))"
    using h fin by (rule allocate_shares)
next
  assume "ratios \<noteq> [] \<and> Money_allocate E m (Array ratios) precision = Inl e"
  then show "callee_error e" using Money_allocate_callee by blast
qed

theorem allocate_argument_checks_witness:
  "Money_allocate example_env \<lparr>amount = 10, currency = ''USD''\<rparr> (Array [Fin 3, Fin (- 1)]) Undefined =
     Inr [\<lparr>amount = 15, currency = ''USD''\<rparr>, \<lparr>amount = - 5, currency = ''USD''\<rparr>] \<and>
   (\<exists>amnt shares ps.
      Money_round example_env \<lparr>amount = 10, currency = ''USD''\<rparr> Undefined = Inr amnt \<and>
      Money_allocate example_env \<lparr>amount = 10, currency = ''USD''\<rparr>
        (Array [Fin 3, Fin (- 1)]) Undefined = Inr shares \<and>
      sum_list (map amount shares) = amount amnt \<and>
      length shares = length [Fin 3, Fin (- 1)] \<and>
      list_all (\<lambda>s. currency s = currency \<lparr>amount = 10, currency = ''USD''\<rparr>) shares \<and>
      map (share_of example_env amnt (total_of example_env [Fin 3, Fin (- 1)]) Undefined)
          [Fin 3, Fin (- 1)] = map Inr ps \<and>
      tl shares = tl ps \<and>
      amount (hd shares) = amount (hd ps) + (amount amnt - sum_list (map amount ps))) \<and>
   Money_allocate example_env \<lparr>amount = 10, currency = ''USD''\<rparr> (Array [Fin 1, Fin (- 1)]) Undefined =
     Inl InvalidAmount \<and>
   callee_error InvalidAmount"
proof -
  let ?m = "\<lparr>amount = 10, currency = ''USD''\<rparr>"
  let ?rs = "[Fin 3, Fin (- 1)]"
  let ?zs = "[Fin 1, Fin (- 1)]"
  have t: "total_of example_env ?rs = Fin 2" by (simp add: total_of_def example_env_def)
  have h: "iso4217 (currency ?m) \<and> valid_precision example_env ?m Undefined \<and>
    ieee_div_nan example_env \<and> ?rs \<noteq> [] \<and> list_all is_finite ?rs \<and>
    nonzero (total_of example_env ?rs) \<and>
    list_all (\<lambda>r. \<not> is_infinite (fdiv example_env r (total_of example_env ?rs))) ?rs"
    unfolding t using example_env_ieee_div_nan
    by (simp add: iso4217_USD Money_precision_def MAX_DP_def) (simp add: example_env_def)
  have e: "Money_allocate example_env ?m (Array ?rs) Undefined =
     Inr [\<lparr>amount = 15, currency = ''USD''\<rparr>, \<lparr>amount = - 5, currency = ''USD''\<rparr>]"
    by (simp add: eval_defs)
  have z: "?zs \<noteq> [] \<and> Money_allocate example_env ?m (Array ?zs) Undefined = Inl InvalidAmount"
    by (simp add: eval_defs)
  note thm1 = allocate_argument_checks [of example_env ?m Undefined Undefined ?rs InvalidAmount]
  note thm2 = allocate_argument_checks [of example_env ?m Undefined Undefined ?zs InvalidAmount]
  have 1: "\<exists>amnt shares ps.
      Money_round example_env ?m Undefined = Inr amnt \<and>
      Money_allocate example_env ?m (Array ?rs) Undefined = Inr shares \<and>
      sum_list (map amount shares) = amount amnt \<and>
      length shares = length ?rs \<and>
      list_all (\<lambda>s. currency s = currency ?m) shares \<and>
      map (share_of example_env amnt (total_of example_env ?rs) Undefined) ?rs = map Inr ps \<and>
      tl shares = tl ps \<and>
      amount (hd shares) = amount (hd ps) + (amount amnt - sum_list (map amount ps))"
    by (rule thm1 [THEN conjunct2, THEN conjunct2, THEN conjunct1, THEN mp, OF h])
  have 2: "callee_error InvalidAmount"
    by (rule thm2 [THEN conjunct2, THEN conjunct2, THEN conjunct2, THEN mp, OF z])
  show ?thesis using e z 1 2 by (intro conjI) (simp_all only: simp_thms)
qed

text \<open>\<open>Money(10, 'USD').allocate([1e308, -1e308, 0.1])\<close>: the ratios are finite and their
  total is 0.1, but \<open>1e308 / 0.1\<close> overflows to \<open>Infinity\<close>, and \<open>amount.times(Infinity)\<close>
  throws the error of big.js.\<close>

theorem allocate_argument_checks_counterexample:
  "list_all is_finite [Fin (10 ^ 308), Fin (- (10 ^ 308)), Fin (1 / 10)] \<and>
   total_of overflow_env [Fin (10 ^ 308), Fin (- (10 ^ 308)), Fin (1 / 10)] = Fin (1 / 10) \<and>
   nonzero (total_of overflow_env [Fin (10 ^ 308), Fin (- (10 ^ 308)), Fin (1 / 10)]) \<and>
   fdiv overflow_env (Fin (10 ^ 308)) (Fin (1 / 10)) = PosInf \<and>
   Money_allocate overflow_env \<lparr>amount = 10, currency = ''USD''\<rparr>
     (Array [Fin (10 ^ 308), Fin (- (10 ^ 308)), Fin (1 / 10)]) Undefined = Inl InvalidAmount"
  using two_1024_le by (rule overflow_allocate)

section \<open>Rounding\<close>

text \<open>
  C3. \<open>round(precision)\<close> rounds half to even. When the amount of a Money lies exactly
  halfway between two decimals with the target number of places, \<open>k / 10 ^ p\<close> and
  \<open>(k + 1) / 10 ^ p\<close>, the result is the one of the two whose last digit is even, in the
  same currency. The examples of the claim, 2.5 JPY to 2 JPY and 3.5 JPY to 4 JPY at
  precision 0, are instances.
\<close>

theorem round_half_even:
  assumes "iso4217 (currency m)" and "valid_precision E m precision"
    and "amount m * 10 ^ places_of E m precision = of_int k + 1 / 2"
  shows "Money_round E m precision =
           Inr \<lparr>amount = of_int (if even k then k else k + 1) / 10 ^ places_of E m precision,
                currency = currency m\<rparr>"
  using assms by (simp add: Money_round_valid round_to_def half_even_tie)

theorem round_half_even_witness:
  "Money_round example_env \<lparr>amount = 5 / 2, currency = ''JPY''\<rparr> (Num (Fin 0)) =
     Inr \<lparr>amount = 2, currency = ''JPY''\<rparr> \<and>
   Money_round example_env \<lparr>amount = 7 / 2, currency = ''JPY''\<rparr> (Num (Fin 0)) =
     Inr \<lparr>amount = 4, currency = ''JPY''\<rparr> \<and>
   Money_round example_env \<lparr>amount = 5 / 2, currency = ''JPY''\<rparr> Undefined =
     Inr \<lparr>amount = 2, currency = ''JPY''\<rparr> \<and>
   Money_round example_env \<lparr>amount = 1005 / 1000, currency = ''USD''\<rparr> Undefined =
     Inr \<lparr>amount = 100 / 100, currency = ''USD''\<rparr>"
proof -
  have a: "Money_round example_env \<lparr>amount = 5 / 2, currency = ''JPY''\<rparr> (Num (Fin 0)) =
     Inr \<lparr>amount = 2, currency = ''JPY''\<rparr>"
    using round_half_even [of "\<lparr>amount = 5 / 2, currency = ''JPY''\<rparr>" example_env "Num (Fin 0)" 2]
    by (simp add: iso4217_JPY)
  have b: "Money_round example_env \<lparr>amount = 7 / 2, currency = ''JPY''\<rparr> (Num (Fin 0)) =
     Inr \<lparr>amount = 4, currency = ''JPY''\<rparr>"
    using round_half_even [of "\<lparr>amount = 7 / 2, currency = ''JPY''\<rparr>" example_env "Num (Fin 0)" 3]
    by (simp add: iso4217_JPY)
  have c: "Money_round example_env \<lparr>amount = 5 / 2, currency = ''JPY''\<rparr> Undefined =
     Inr \<lparr>amount = 2, currency = ''JPY''\<rparr>"
    using round_half_even [of "\<lparr>amount = 5 / 2, currency = ''JPY''\<rparr>" example_env Undefined 2]
    by (simp add: iso4217_JPY Money_precision_def example_env_def MAX_DP_def)
  have d: "Money_round example_env \<lparr>amount = 1005 / 1000, currency = ''USD''\<rparr> Undefined =
     Inr \<lparr>amount = 100 / 100, currency = ''USD''\<rparr>"
    using round_half_even [of "\<lparr>amount = 1005 / 1000, currency = ''USD''\<rparr>" example_env Undefined 100]
    by (simp add: iso4217_USD Money_precision_def example_env_def MAX_DP_def)
  show ?thesis using a b c d by simp
qed

text \<open>
  C4, as the code has it. \<open>round(precision)\<close> fails with a TypeError whenever
  \<open>precision\<close> is truthy and not an integer for \<open>Number.isInteger\<close> (a fractional number,
  an infinity, a non-empty string, \<open>true\<close>). An integer never gets a TypeError, whatever
  its sign: it is handed to \<open>round\<close> of big.js. An omitted precision is the number of
  places \<open>l10n\<close> reports for the currency.
\<close>

theorem round_precision_check:
  "(truthy precision \<and> \<not> isInteger precision \<longrightarrow>
      Money_round E m precision = Inl (TypeError ''Precision must be an integer'')) \<and>
   (isInteger precision \<longrightarrow>
      (\<forall>msg. Money_round E m precision \<noteq> Inl (TypeError msg))) \<and>
   Money_round E m Undefined = Money_round E m (Num (Fin (of_nat (l10n_digits E (currency m)))))"
proof (intro conjI impI allI)
  assume "truthy precision \<and> \<not> isInteger precision"
  then show "Money_round E m precision = Inl (TypeError ''Precision must be an integer'')"
    by (simp add: Money_round_def)
next
  fix msg
  assume "isInteger precision"
  then show "Money_round E m precision \<noteq> Inl (TypeError msg)"
    using Big_round_not_TypeError validate_BigV_not_TypeError
    by (auto simp: Money_round_def Let_def split: sum.splits)
next
  show "Money_round E m Undefined = Money_round E m (Num (Fin (of_nat (l10n_digits E (currency m)))))"
    by (simp add: Money_round_def Money_precision_def)
qed

theorem round_precision_check_witness:
  "Money_round example_env \<lparr>amount = 1, currency = ''USD''\<rparr> (Num (Fin (3 / 2))) =
     Inl (TypeError ''Precision must be an integer'') \<and>
   Money_round example_env \<lparr>amount = 1, currency = ''USD''\<rparr> (Str ''2'') =
     Inl (TypeError ''Precision must be an integer'') \<and>
   Money_round example_env \<lparr>amount = 1, currency = ''USD''\<rparr> (Num (Fin (- 1))) \<noteq>
     Inl (TypeError ''Precision must be an integer'')"
proof -
  let ?m = "\<lparr>amount = 1, currency = ''USD''\<rparr>"
  have a: "truthy (Num (Fin (3 / 2))) \<and> \<not> isInteger (Num (Fin (3 / 2)))"
    by (simp add: floor_numeral_div)
  have b: "truthy (Str ''2'') \<and> \<not> isInteger (Str ''2'')" by simp
  have c: "isInteger (Num (Fin (- 1)))" by simp
  show ?thesis
    using round_precision_check [of "Num (Fin (3 / 2))" example_env ?m] a
      round_precision_check [of "Str ''2''" example_env ?m] b
      round_precision_check [of "Num (Fin (- 1))" example_env ?m] c
    by blast
qed

text \<open>\<open>Money(1, 'USD').round(-1)\<close>: \<open>-1\<close> is an integer, so the test of line 105 lets it
  through; big.js then rejects it with its own error, which is not a TypeError.\<close>

theorem round_precision_check_counterexample:
  "truthy (Num (Fin (- 1))) \<and> isInteger (Num (Fin (- 1))) \<and>
   Money_round example_env \<lparr>amount = 1, currency = ''USD''\<rparr> (Num (Fin (- 1))) = Inl InvalidPrecision \<and>
   Money_round example_env \<lparr>amount = 1, currency = ''USD''\<rparr> (Num (Fin (- 1))) \<noteq>
     Inl (TypeError ''Precision must be an integer'')"
  by (simp add: Money_round_def Big_round_def)

section \<open>Arithmetic and comparison\<close>

text \<open>
  C5. For Money values \<open>x\<close> and \<open>y\<close> of the same currency, \<open>x.plus(y)\<close> is the exact sum
  and \<open>x.plus(y).minus(y)\<close> the exact difference, both in the shared currency, and
  \<open>x.plus(y).minus(y).eq(x)\<close> is true. The methods are functions of their operands and
  build a new Money: the source assigns to no field of \<open>this\<close> or \<open>that\<close>.
\<close>

theorem plus_minus_eq:
  assumes "iso4217 (currency x)" and "currency y = currency x"
  shows "\<exists>z w. Money_plus E x y = Inr z \<and> amount z = amount x + amount y \<and>
           currency z = currency x \<and>
           Money_minus E z y = Inr w \<and> amount w = amount z - amount y \<and>
           currency w = currency x \<and>
           Money_eq w x = Inr True"
proof -
  let ?z = "\<lparr>amount = amount x + amount y, currency = currency x\<rparr>"
  let ?w = "\<lparr>amount = amount ?z - amount y, currency = currency x\<rparr>"
  have p: "Money_plus E x y = Inr ?z" using assms by (rule Money_plus_same)
  have "Money_minus E ?z y = Inr \<lparr>amount = amount ?z - amount y, currency = currency ?z\<rparr>"
    using assms by (intro Money_minus_same) simp_all
  then have m: "Money_minus E ?z y = Inr ?w" by simp
  have e: "Money_eq ?w x = Inr True"
    by (simp add: Money_eq_def Money_compare_def cmp_def)
  show ?thesis using p m e by (intro exI [of _ ?z] exI [of _ ?w]) simp
qed

theorem plus_minus_eq_witness:
  "\<exists>z w. Money_plus example_env \<lparr>amount = 1 / 10, currency = ''USD''\<rparr>
             \<lparr>amount = 2 / 10, currency = ''USD''\<rparr> = Inr z \<and>
     amount z = 1 / 10 + 2 / 10 \<and> currency z = ''USD'' \<and>
     Money_minus example_env z \<lparr>amount = 2 / 10, currency = ''USD''\<rparr> = Inr w \<and>
     amount w = amount z - 2 / 10 \<and> currency w = ''USD'' \<and>
     Money_eq w \<lparr>amount = 1 / 10, currency = ''USD''\<rparr> = Inr True"
  using plus_minus_eq [of "\<lparr>amount = 1 / 10, currency = ''USD''\<rparr>"
      "\<lparr>amount = 2 / 10, currency = ''USD''\<rparr>" example_env]
  by (simp add: iso4217_USD)

text \<open>
  C6. For Money values of different currencies, \<open>plus\<close>, \<open>minus\<close> and \<open>compare\<close> fail with
  the currency mismatch error, \<open>eq\<close> returns false and \<open>ne\<close> returns true, neither reaching
  \<open>compare\<close>.
\<close>

theorem currency_mismatch:
  assumes "currency x \<noteq> currency y"
  shows "Money_plus E x y = Inl CurrencyMismatch \<and>
         Money_minus E x y = Inl CurrencyMismatch \<and>
         Money_compare x y = Inl CurrencyMismatch \<and>
         Money_eq x y = Inr False \<and>
         Money_ne x y = Inr True"
  using assms
  by (simp add: Money_plus_def Money_minus_def Money_compare_def Money_eq_def Money_ne_def)

theorem currency_mismatch_witness:
  "Money_plus example_env \<lparr>amount = 1, currency = ''USD''\<rparr> \<lparr>amount = 1, currency = ''EUR''\<rparr> =
     Inl CurrencyMismatch \<and>
   Money_minus example_env \<lparr>amount = 1, currency = ''USD''\<rparr> \<lparr>amount = 1, currency = ''EUR''\<rparr> =
     Inl CurrencyMismatch \<and>
   Money_compare \<lparr>amount = 1, currency = ''USD''\<rparr> \<lparr>amount = 1, currency = ''EUR''\<rparr> =
     Inl CurrencyMismatch \<and>
   Money_eq \<lparr>amount = 1, currency = ''USD''\<rparr> \<lparr>amount = 1, currency = ''EUR''\<rparr> = Inr False \<and>
   Money_ne \<lparr>amount = 1, currency = ''USD''\<rparr> \<lparr>amount = 1, currency = ''EUR''\<rparr> = Inr True"
  using currency_mismatch [of "\<lparr>amount = 1, currency = ''USD''\<rparr>"
      "\<lparr>amount = 1, currency = ''EUR''\<rparr>" example_env]
  by simp

section \<open>Conversion\<close>

text \<open>
  C8. \<open>m.to(c)\<close> with \<open>c\<close> the currency of \<open>m\<close> is a promise fulfilled with \<open>m\<close> itself; the
  forex service is not called, and \<open>c\<close> is not tested against the pattern (the statement
  asks nothing of the currency of \<open>m\<close>).
\<close>

theorem to_same_currency:
  "Money_to E m (currency m) = (Inr (Fulfilled m), [])"
  by (simp add: Money_to_def)

text \<open>
  C7, as the code has it. For a Money \<open>m\<close>: a target currency that does not match the
  pattern gives a promise rejected with the invalid currency error, and the forex service is
  not called; a rate that resolves to \<open>undefined\<close> gives a promise rejected with the error
  naming both currencies; any other rate that big.js does not accept gives a promise
  rejected with the error thrown while the converted Money is built. \<open>to\<close> returns a
  promise whenever the forex service returns one, and it throws exactly when the call of
  the forex service throws: that call (line 186) is made for a valid target other than the
  currency of \<open>m\<close>, outside the \<open>try\<close>.
\<close>

theorem to_failures_are_rejections:
  assumes "iso4217 (currency m)"
  shows "(\<not> iso4217 target \<longrightarrow>
            Money_to E m target = (Inr (Rejected (InvalidCurrency target)), [])) \<and>
         (iso4217 target \<and> target \<noteq> currency m \<and>
          forexService E (currency m) target = Inr (Fulfilled Undefined) \<longrightarrow>
            Money_to E m target =
              (Inr (Rejected (NoRate (currency m) target)), [(currency m, target)])) \<and>
         (iso4217 target \<and> target \<noteq> currency m \<and>
          forexService E (currency m) target = Inr (Fulfilled rate) \<and> rate \<noteq> Undefined \<longrightarrow>
            Money_to E m target =
              (Inr (case Big_new E rate of
                      Inl e \<Rightarrow> Rejected e
                    | Inr r \<Rightarrow> Fulfilled \<lparr>amount = amount m * r, currency = target\<rparr>),
               [(currency m, target)])) \<and>
         (forexService E (currency m) target = Inr p \<longrightarrow>
            (\<exists>p'. fst (Money_to E m target) = Inr p')) \<and>
         ((fst (Money_to E m target) = Inl e) =
            (target \<noteq> currency m \<and> iso4217 target \<and>
             forexService E (currency m) target = Inl e))"
proof (intro conjI impI)
  assume "\<not> iso4217 target"
  moreover from this have "currency m \<noteq> target" using assms by auto
  ultimately show "Money_to E m target = (Inr (Rejected (InvalidCurrency target)), [])"
    by (simp add: Money_to_def)
next
  assume "iso4217 target \<and> target \<noteq> currency m \<and>
          forexService E (currency m) target = Inr (Fulfilled Undefined)"
  then show "Money_to E m target =
              (Inr (Rejected (NoRate (currency m) target)), [(currency m, target)])"
    by (auto simp: Money_to_def on_rate_def)
next
  assume "iso4217 target \<and> target \<noteq> currency m \<and>
          forexService E (currency m) target = Inr (Fulfilled rate) \<and> rate \<noteq> Undefined"
  then show "Money_to E m target =
              (Inr (case Big_new E rate of
                      Inl e \<Rightarrow> Rejected e
                    | Inr r \<Rightarrow> Fulfilled \<lparr>amount = amount m * r, currency = target\<rparr>),
               [(currency m, target)])"
    by (auto simp: Money_to_def on_rate_def validate_BigV split: sum.splits)
next
  assume "forexService E (currency m) target = Inr p"
  then show "\<exists>p'. fst (Money_to E m target) = Inr p'"
    by (cases p) (simp_all add: Money_to_def)
next
  show "(fst (Money_to E m target) = Inl e) =
            (target \<noteq> currency m \<and> iso4217 target \<and>
             forexService E (currency m) target = Inl e)"
    by (auto simp: Money_to_def split: sum.splits promise.splits)
qed

theorem to_failures_are_rejections_witness:
  "Money_to example_env \<lparr>amount = 5, currency = ''USD''\<rparr> ''usd'' =
     (Inr (Rejected (InvalidCurrency ''usd'')), []) \<and>
   Money_to example_env \<lparr>amount = 5, currency = ''USD''\<rparr> ''ZZZ'' =
     (Inr (Rejected (NoRate ''USD'' ''ZZZ'')), [(''USD'', ''ZZZ'')]) \<and>
   Money_to (example_env\<lparr>forexService := \<lambda>a b. Inr (Fulfilled (Num NaN))\<rparr>)
       \<lparr>amount = 5, currency = ''USD''\<rparr> ''EUR'' =
     (Inr (Rejected InvalidAmount), [(''USD'', ''EUR'')]) \<and>
   Money_to (example_env\<lparr>forexService := \<lambda>a b. Inr (Fulfilled (Num (Fin 2)))\<rparr>)
       \<lparr>amount = 5, currency = ''USD''\<rparr> ''EUR'' =
     (Inr (Fulfilled \<lparr>amount = 10, currency = ''EUR''\<rparr>), [(''USD'', ''EUR'')]) \<and>
   (\<exists>p'. fst (Money_to example_env \<lparr>amount = 5, currency = ''USD''\<rparr> ''EUR'') = Inr p') \<and>
   fst (Money_to (example_env\<lparr>forexService := \<lambda>a b. Inl (ServiceError ''no network'')\<rparr>)
          \<lparr>amount = 5, currency = ''USD''\<rparr> ''JPY'') = Inl (ServiceError ''no network'')"
proof -
  let ?m = "\<lparr>amount = 5, currency = ''USD''\<rparr>"
  have i: "iso4217 (currency ?m)" by (simp add: iso4217_USD)
  have z: "iso4217 ''ZZZ''" "\<not> iso4217 ''usd''" by (simp_all add: iso4217_def)
  let ?E1 = "example_env\<lparr>forexService := \<lambda>a b. Inr (Fulfilled (Num NaN))\<rparr>"
  let ?E2 = "example_env\<lparr>forexService := \<lambda>a b. Inr (Fulfilled (Num (Fin 2)))\<rparr>"
  let ?E3 = "example_env\<lparr>forexService := \<lambda>a b. Inl (ServiceError ''no network'')\<rparr>"
  have f: "forexService example_env (currency ?m) t = Inr (Fulfilled Undefined)" for t
    by (simp add: example_env_def)
  show ?thesis
    using to_failures_are_rejections [OF i, of "''usd''" example_env Undefined Pending InvalidAmount]
      to_failures_are_rejections [OF i, of "''ZZZ''" example_env Undefined Pending InvalidAmount]
      to_failures_are_rejections [OF i, of "''EUR''" ?E1 "Num NaN" Pending InvalidAmount]
      to_failures_are_rejections [OF i, of "''EUR''" ?E2 "Num (Fin 2)" Pending InvalidAmount]
      to_failures_are_rejections [OF i, of "''EUR''" example_env Undefined "Fulfilled Undefined"
        InvalidAmount]
      to_failures_are_rejections [OF i, of "''JPY''" ?E3 Undefined Pending
        "ServiceError ''no network''"]
      z f iso4217_EUR iso4217_JPY
    by simp
qed

text \<open>A forex service that throws when called: \<open>Money(5, 'USD').to('EUR')\<close> throws the
  same error instead of returning a promise.\<close>

theorem to_failures_are_rejections_counterexample:
  "fst (Money_to (example_env\<lparr>forexService := \<lambda>a b. Inl (ServiceError ''boom'')\<rparr>)
          \<lparr>amount = 5, currency = ''USD''\<rparr> ''EUR'') = Inl (ServiceError ''boom'')"
  by (simp add: Money_to_def iso4217_def)

section \<open>The invariant of Money\<close>

text \<open>
  C9, as the code has it. Every Money returned by the constructor, \<open>plus\<close>, \<open>minus\<close>,
  \<open>times\<close>, \<open>round\<close>, \<open>allocate\<close> and \<open>to\<close> has a currency matching \<open>/^[A-Z]{3}$/\<close>.
  Construction with a currency that does not match always fails: the amount is read first,
  so the failure is the error of the amount when big.js rejects it, and the invalid
  currency error naming the code otherwise. A Money is a value here and the methods are
  functions: no field of an existing Money is assigned after construction.
\<close>

theorem money_currency_invariant:
  "(Money E args = Inr m \<longrightarrow> iso4217 (currency m)) \<and>
   (Money_plus E x y = Inr m \<longrightarrow> iso4217 (currency m)) \<and>
   (Money_minus E x y = Inr m \<longrightarrow> iso4217 (currency m)) \<and>
   (Money_times E x v = Inr m \<longrightarrow> iso4217 (currency m)) \<and>
   (Money_round E x precision = Inr m \<longrightarrow> iso4217 (currency m)) \<and>
   (Money_allocate E x ratios precision = Inr shares \<longrightarrow>
      list_all (\<lambda>s. iso4217 (currency s)) shares) \<and>
   (iso4217 (currency x) \<and> fst (Money_to E x target) = Inr (Fulfilled m) \<longrightarrow>
      iso4217 (currency m)) \<and>
   (\<not> iso4217 c \<longrightarrow>
      Money E (Two a c) =
        (case read_amount E a of Inl e \<Rightarrow> Inl e | Inr b \<Rightarrow> Inl (InvalidCurrency c)) \<and>
      Money E (OneObject a c) =
        (case read_amount E a of Inl e \<Rightarrow> Inl e | Inr b \<Rightarrow> Inl (InvalidCurrency c))) \<and>
   (\<not> iso4217 (after_last_space s) \<longrightarrow>
      Money E (OneString s) =
        (case read_amount E (Val (Str (before_last_space s))) of
           Inl e \<Rightarrow> Inl e
         | Inr b \<Rightarrow> Inl (InvalidCurrency (after_last_space s))))"
  using Money_iso [of E args m] Money_plus_iso [of E x y m] Money_minus_iso [of E x y m]
    Money_times_iso [of E x v m] Money_round_iso [of E x precision m]
    Money_allocate_iso [of E x ratios precision shares] Money_to_iso [of x E target m]
  by (simp add: validate_def split: sum.splits)

theorem money_currency_invariant_witness:
  "Money example_env (Two (Val (Num (Fin 1))) ''USD'') = Inr \<lparr>amount = 1, currency = ''USD''\<rparr> \<and>
   Money_plus example_env \<lparr>amount = 1, currency = ''USD''\<rparr> \<lparr>amount = 2, currency = ''USD''\<rparr> =
     Inr \<lparr>amount = 3, currency = ''USD''\<rparr> \<and>
   Money_minus example_env \<lparr>amount = 1, currency = ''USD''\<rparr> \<lparr>amount = 2, currency = ''USD''\<rparr> =
     Inr \<lparr>amount = - 1, currency = ''USD''\<rparr> \<and>
   Money_times example_env \<lparr>amount = 1, currency = ''USD''\<rparr> (Num (Fin 2)) =
     Inr \<lparr>amount = 2, currency = ''USD''\<rparr> \<and>
   Money_round example_env \<lparr>amount = 1, currency = ''USD''\<rparr> Undefined =
     Inr \<lparr>amount = 1, currency = ''USD''\<rparr> \<and>
   iso4217 ''USD'' \<and>
   Money_allocate example_env \<lparr>amount = 1, currency = ''USD''\<rparr> (Array [Fin 1, Fin 1]) Undefined =
     Inr [\<lparr>amount = 1 / 2, currency = ''USD''\<rparr>, \<lparr>amount = 1 / 2, currency = ''USD''\<rparr>] \<and>
   list_all (\<lambda>s. iso4217 (currency s))
     [\<lparr>amount = 1 / 2, currency = ''USD''\<rparr>, \<lparr>amount = 1 / 2, currency = ''USD''\<rparr>] \<and>
   fst (Money_to (example_env\<lparr>forexService := \<lambda>a b. Inr (Fulfilled (Num (Fin 2)))\<rparr>)
          \<lparr>amount = 1, currency = ''USD''\<rparr> ''EUR'') =
     Inr (Fulfilled \<lparr>amount = 2, currency = ''EUR''\<rparr>) \<and>
   iso4217 ''EUR'' \<and>
   Money example_env (Two (Val (Num (Fin 1))) ''usd'') = Inl (InvalidCurrency ''usd'') \<and>
   Money example_env (OneObject (Val (Num (Fin 1))) ''usd'') = Inl (InvalidCurrency ''usd'') \<and>
   Money (example_env\<lparr>Big_parse := \<lambda>s. if s = ''12'' then Some 12 else None\<rparr>) (OneString ''12 usd'') =
     Inl (InvalidCurrency ''usd'')"
proof -
  let ?E = example_env
  let ?E2 = "example_env\<lparr>forexService := \<lambda>a b. Inr (Fulfilled (Num (Fin 2)))\<rparr>"
  let ?E3 = "example_env\<lparr>Big_parse := \<lambda>s. if s = ''12'' then Some 12 else None\<rparr>"
  let ?one = "\<lparr>amount = 1, currency = ''USD''\<rparr>"
  let ?two = "\<lparr>amount = 2, currency = ''USD''\<rparr>"
  let ?halves = "[\<lparr>amount = 1 / 2, currency = ''USD''\<rparr>, \<lparr>amount = 1 / 2, currency = ''USD''\<rparr>]"
  have c: "Money ?E (Two (Val (Num (Fin 1))) ''USD'') = Inr ?one"
    by (simp add: eval_defs)
  have p: "Money_plus ?E ?one ?two = Inr \<lparr>amount = 3, currency = ''USD''\<rparr>"
    by (simp add: eval_defs)
  have mi: "Money_minus ?E ?one ?two = Inr \<lparr>amount = - 1, currency = ''USD''\<rparr>"
    by (simp add: eval_defs)
  have t: "Money_times ?E ?one (Num (Fin 2)) = Inr ?two"
    by (simp add: eval_defs)
  have r: "Money_round ?E ?one Undefined = Inr ?one"
    by (simp add: eval_defs)
  have a: "Money_allocate ?E ?one (Array [Fin 1, Fin 1]) Undefined = Inr ?halves"
    by (simp add: eval_defs)
  have f: "fst (Money_to ?E2 ?one ''EUR'') = Inr (Fulfilled \<lparr>amount = 2, currency = ''EUR''\<rparr>)"
    by (simp add: Money_to_def on_rate_def eval_defs)
  have n: "\<not> iso4217 ''usd''" by (simp add: iso4217_def)
  have s: "after_last_space ''12 usd'' = ''usd''" "before_last_space ''12 usd'' = ''12''"
    by (simp_all add: after_last_space_def before_last_space_def)
  have ra: "read_amount ?E (Val (Num (Fin 1))) = Inr 1"
    "read_amount ?E3 (Val (Str ''12'')) = Inr 12"
    by (simp_all add: read_amount_def example_env_def)
  note inv = money_currency_invariant [where v = "Num (Fin 2)" and precision = Undefined
      and ratios = "Array [Fin 1, Fin 1]" and shares = ?halves and target = "''EUR''"
      and c = "''usd''" and a = "Val (Num (Fin 1))" and s = "''12 usd''" and x = ?one and y = ?two]
  have i1: "iso4217 ''USD''"
    using inv [where E = ?E and args = "Two (Val (Num (Fin 1))) ''USD''" and m = ?one] c by simp
  have i1p: "iso4217 (currency \<lparr>amount = 3, currency = ''USD''\<rparr>)"
    using inv [where E = ?E and args = "Two (Val (Num (Fin 1))) ''USD''"
        and m = "\<lparr>amount = 3, currency = ''USD''\<rparr>"] p by blast
  have i1m: "iso4217 (currency \<lparr>amount = - 1, currency = ''USD''\<rparr>)"
    using inv [where E = ?E and args = "Two (Val (Num (Fin 1))) ''USD''"
        and m = "\<lparr>amount = - 1, currency = ''USD''\<rparr>"] mi by blast
  have i1t: "iso4217 (currency ?two)"
    using inv [where E = ?E and args = "Two (Val (Num (Fin 1))) ''USD''" and m = ?two] t by blast
  have i1r: "iso4217 (currency ?one)"
    using inv [where E = ?E and args = "Two (Val (Num (Fin 1))) ''USD''" and m = ?one] r by blast
  have i2: "list_all (\<lambda>s. iso4217 (currency s)) ?halves"
    using inv [where E = ?E and args = "Two (Val (Num (Fin 1))) ''USD''" and m = ?one] a by blast
  have i3: "iso4217 (currency \<lparr>amount = 2, currency = ''EUR''\<rparr>)"
    using inv [where E = ?E2 and args = "Two (Val (Num (Fin 1))) ''USD''"
        and m = "\<lparr>amount = 2, currency = ''EUR''\<rparr>"] f i1r by blast
  have i4: "Money ?E (Two (Val (Num (Fin 1))) ''usd'') = Inl (InvalidCurrency ''usd'') \<and>
    Money ?E (OneObject (Val (Num (Fin 1))) ''usd'') = Inl (InvalidCurrency ''usd'')"
    using inv [where E = ?E and args = "Two (Val (Num (Fin 1))) ''USD''" and m = ?one] n
    unfolding ra sum.case by blast
  have i5: "Money ?E3 (OneString ''12 usd'') = Inl (InvalidCurrency ''usd'')"
    using inv [where E = ?E3 and args = "Two (Val (Num (Fin 1))) ''USD''" and m = ?one] n
    unfolding s ra sum.case by blast
  have i3': "iso4217 ''EUR''" using i3 by simp
  show ?thesis using c p mi t r a f i1 i2 i3' i4 i5 by (intro conjI) (simp_all only: simp_thms)
qed

text \<open>\<open>new Money(NaN, 'usd')\<close>: \<open>new Big(NaN)\<close> throws before the currency is tested.\<close>

theorem money_currency_invariant_counterexample:
  "\<not> iso4217 ''usd'' \<and>
   Money example_env (Two (Val (Num NaN)) ''usd'') = Inl InvalidAmount \<and>
   Money example_env (Two (Val (Num NaN)) ''usd'') \<noteq> Inl (InvalidCurrency ''usd'')"
  by (simp add: iso4217_def validate_def read_amount_def)

end
